theory Spec2Isabelle
  imports Complex_Main "HOL-Library.Word"
begin

section \<open>Application errors (config/errors.ts)\<close>

text \<open>
  Every error class of \<^verbatim>\<open>config/errors.ts\<close> is a constructor carrying the message.
  \<open>PrismaError\<close> is a store-layer error carrying its code (\<^verbatim>\<open>P2002\<close> is a uniqueness
  violation), and \<open>OtherError\<close> a plain \<^verbatim>\<open>Error\<close>.
\<close>

datatype error =
    NotFoundError string
  | UnauthorizedError string
  | ForbiddenError string
  | ConflictError string
  | ValidationError string
  | TooManyRequestsError string
  | PrismaError string
  | OtherError string

text \<open>The \<^verbatim>\<open>name\<close> property each class sets in its constructor.\<close>

fun error_name :: "error \<Rightarrow> string" where
  "error_name (NotFoundError _) = ''NotFoundError''"
| "error_name (UnauthorizedError _) = ''UnauthorizedError''"
| "error_name (ForbiddenError _) = ''ForbiddenError''"
| "error_name (ConflictError _) = ''ConflictError''"
| "error_name (ValidationError _) = ''ValidationError''"
| "error_name (TooManyRequestsError _) = ''TooManyRequestsError''"
| "error_name (PrismaError _) = ''PrismaClientKnownRequestError''"
| "error_name (OtherError _) = ''Error''"

section \<open>JavaScript strings and numbers\<close>

text \<open>
  Strings are lists of 8-bit characters; \<open>trim\<close> strips the ASCII white space and
  \<open>toUpperCase\<close> maps the ASCII lower-case letters.
\<close>

definition is_space :: "char \<Rightarrow> bool" where
  "is_space c \<longleftrightarrow> c \<in> set [CHR '' '', CHR 0x09, CHR 0x0A, CHR 0x0B, CHR 0x0C, CHR 0x0D]"

definition trim :: "string \<Rightarrow> string" where
  "trim s = rev (dropWhile is_space (rev (dropWhile is_space s)))"

definition upper_char :: "char \<Rightarrow> char" where
  "upper_char c =
     (case map_of (zip ''abcdefghijklmnopqrstuvwxyz'' ''ABCDEFGHIJKLMNOPQRSTUVWXYZ'') c of
        None \<Rightarrow> c
      | Some u \<Rightarrow> u)"

definition toUpperCase :: "string \<Rightarrow> string" where
  "toUpperCase s = map upper_char s"

text \<open>
  A JavaScript number is \<open>NaN\<close>, an infinity or a finite value; the finite values are
  taken as rationals, on which comparison, \<^verbatim>\<open>Math.floor\<close> and \<^verbatim>\<open>Math.min\<close> are exact.
\<close>

datatype jsnumber = NaN | PosInfinity | NegInfinity | Finite rat

text \<open>A query parameter of type \<^verbatim>\<open>string | number | undefined\<close>.\<close>

datatype query_value = Undefined | NumberValue jsnumber | StringValue string

text \<open>
  \<^verbatim>\<open>Number(value)\<close>: the built-in conversion of a string is the parameter \<open>parse\<close>
  (it yields \<open>NaN\<close> on a string that is not a numeric literal).
\<close>

fun Number :: "(string \<Rightarrow> jsnumber) \<Rightarrow> query_value \<Rightarrow> jsnumber" where
  "Number parse Undefined = NaN"
| "Number parse (NumberValue n) = n"
| "Number parse (StringValue s) = parse s"

fun isFinite :: "jsnumber \<Rightarrow> bool" where
  "isFinite (Finite _) = True"
| "isFinite _ = False"

text \<open>\<^verbatim>\<open>a < b\<close> on numbers, for a finite right operand; false on \<open>NaN\<close>.\<close>

fun js_less :: "jsnumber \<Rightarrow> rat \<Rightarrow> bool" where
  "js_less (Finite x) b = (x < b)"
| "js_less NegInfinity b = True"
| "js_less _ b = False"

section \<open>Escrow service\<close>

datatype EscrowStatus = PENDING | ACTIVE | COMPLETED | DISPUTED | EXPIRED

fun status_name :: "EscrowStatus \<Rightarrow> string" where
  "status_name PENDING = ''PENDING''"
| "status_name ACTIVE = ''ACTIVE''"
| "status_name COMPLETED = ''COMPLETED''"
| "status_name DISPUTED = ''DISPUTED''"
| "status_name EXPIRED = ''EXPIRED''"

text \<open>\<^verbatim>\<open>ESCROW_STATUSES\<close>, as the partial map from a status string to the status.\<close>

definition ESCROW_STATUSES :: "string \<Rightarrow> EscrowStatus option" where
  "ESCROW_STATUSES =
     map_of [(''PENDING'', PENDING), (''ACTIVE'', ACTIVE), (''COMPLETED'', COMPLETED),
             (''DISPUTED'', DISPUTED), (''EXPIRED'', EXPIRED)]"

fun ESCROW_ALLOWED_TRANSITIONS :: "EscrowStatus \<Rightarrow> EscrowStatus set" where
  "ESCROW_ALLOWED_TRANSITIONS PENDING = {PENDING, ACTIVE, COMPLETED, DISPUTED, EXPIRED}"
| "ESCROW_ALLOWED_TRANSITIONS ACTIVE = {ACTIVE, COMPLETED, DISPUTED, EXPIRED}"
| "ESCROW_ALLOWED_TRANSITIONS COMPLETED = {COMPLETED}"
| "ESCROW_ALLOWED_TRANSITIONS DISPUTED = {DISPUTED, ACTIVE, COMPLETED, EXPIRED}"
| "ESCROW_ALLOWED_TRANSITIONS EXPIRED = {EXPIRED}"

definition MIN_PAGE :: rat where "MIN_PAGE = 1"
definition DEFAULT_PAGE :: int where "DEFAULT_PAGE = 1"
definition DEFAULT_LIMIT :: int where "DEFAULT_LIMIT = 20"
definition MAX_LIMIT :: int where "MAX_LIMIT = 100"

text \<open>A row of the escrow table; times are milliseconds since the epoch.\<close>

record escrow =
  e_id :: string
  e_buyerId :: string
  e_sellerId :: string
  e_amount :: string
  e_assetCode :: string
  e_status :: EscrowStatus
  e_expiresAt :: int
  e_stellarTxHash :: "string option"
  e_createdAt :: int

type_synonym escrow_table = "escrow list"

record EscrowListQuery =
  q_buyerId :: "string option"
  q_sellerId :: "string option"
  q_status :: "string option"
  q_page :: query_value
  q_limit :: query_value

record EscrowEventPayload =
  ev_escrowId :: "string option"
  ev_status :: "string option"
  ev_stellarTxHash :: "string option"

text \<open>
  The loan statuses \<^verbatim>\<open>PENDING\<close>, \<^verbatim>\<open>ACTIVE\<close>, \<^verbatim>\<open>REPAID\<close> and \<^verbatim>\<open>DEFAULTED\<close>; the
  first two are prefixed to keep them apart from the escrow statuses of the same name.
\<close>

datatype LoanStatus = LOAN_PENDING | LOAN_ACTIVE | REPAID | DEFAULTED

text \<open>The events handed to the websocket service.\<close>

datatype ws_event =
    EscrowCreated string string string
  | EscrowUpdated string EscrowStatus
  | LoanUpdated string LoanStatus

definition normalizeStatus :: "string option \<Rightarrow> string \<Rightarrow> error + EscrowStatus" where
  "normalizeStatus v fieldName =
     (case (case v of None \<Rightarrow> None | Some s \<Rightarrow> ESCROW_STATUSES (toUpperCase (trim s))) of
        None \<Rightarrow> Inl (ValidationError
                 (fieldName @ '' must be one of: PENDING, ACTIVE, COMPLETED, DISPUTED, EXPIRED''))
      | Some st \<Rightarrow> Inr st)"

definition coercePage :: "(string \<Rightarrow> jsnumber) \<Rightarrow> query_value \<Rightarrow> int" where
  "coercePage parse v =
     (let page = Number parse (case v of Undefined \<Rightarrow> NumberValue (Finite (of_int DEFAULT_PAGE))
                                       | _ \<Rightarrow> v)
      in if \<not> isFinite page \<or> js_less page MIN_PAGE then DEFAULT_PAGE
         else (case page of Finite x \<Rightarrow> \<lfloor>x\<rfloor> | _ \<Rightarrow> DEFAULT_PAGE))"

definition coerceLimit :: "(string \<Rightarrow> jsnumber) \<Rightarrow> query_value \<Rightarrow> int" where
  "coerceLimit parse v =
     (let limit = Number parse (case v of Undefined \<Rightarrow> NumberValue (Finite (of_int DEFAULT_LIMIT))
                                        | _ \<Rightarrow> v)
      in if \<not> isFinite limit \<or> js_less limit 1 then DEFAULT_LIMIT
         else (case limit of Finite x \<Rightarrow> min MAX_LIMIT \<lfloor>x\<rfloor> | _ \<Rightarrow> DEFAULT_LIMIT))"

text \<open>A filter of the query is applied when its trimmed value is not empty.\<close>

definition filter_given :: "string option \<Rightarrow> bool" where
  "filter_given v = (case v of None \<Rightarrow> False | Some s \<Rightarrow> trim s \<noteq> [])"

record pagination =
  p_page :: int
  p_limit :: int
  p_total :: nat
  p_totalPages :: int

definition listEscrows ::
  "(string \<Rightarrow> jsnumber) \<Rightarrow> escrow_table \<Rightarrow> EscrowListQuery \<Rightarrow> error + (escrow list \<times> pagination)"
where
  "listEscrows parse db query =
     (let page = coercePage parse (q_page query);
          limit = coerceLimit parse (q_limit query);
          skip = (page - 1) * limit;
          byBuyer = (\<lambda>e. \<not> filter_given (q_buyerId query)
                          \<or> Some (e_buyerId e) = map_option trim (q_buyerId query));
          bySeller = (\<lambda>e. \<not> filter_given (q_sellerId query)
                          \<or> Some (e_sellerId e) = map_option trim (q_sellerId query))
      in case (if filter_given (q_status query)
               then map_sum id Some (normalizeStatus (q_status query) ''status'')
               else Inr None) of
           Inl err \<Rightarrow> Inl err
         | Inr st \<Rightarrow>
             (let matching = filter (\<lambda>e. byBuyer e \<and> bySeller e
                                         \<and> (case st of None \<Rightarrow> True | Some s \<Rightarrow> e_status e = s)) db;
                  items = take (nat limit)
                            (drop (nat skip) (sort_key (\<lambda>e. - e_createdAt e) matching));
                  total = length matching;
                  totalPages = max 1 \<lceil>rat_of_nat total / rat_of_int limit\<rceil>
              in Inr (items, \<lparr>p_page = page, p_limit = limit, p_total = total,
                               p_totalPages = totalPages\<rparr>)))"

text \<open>The store primitives used on the escrow table.\<close>

definition escrow_findUnique :: "escrow_table \<Rightarrow> string \<Rightarrow> escrow option" where
  "escrow_findUnique db i = find (\<lambda>e. e_id e = i) db"

text \<open>\<^verbatim>\<open>updateMany\<close> rewrites every matching row and returns the number of matches.\<close>

definition escrow_updateMany ::
  "(escrow \<Rightarrow> bool) \<Rightarrow> (escrow \<Rightarrow> escrow) \<Rightarrow> escrow_table \<Rightarrow> escrow_table \<times> nat"
where
  "escrow_updateMany P f db = (map (\<lambda>e. if P e then f e else e) db, length (filter P db))"

definition truthy :: "string option \<Rightarrow> bool" where
  "truthy v = (case v of None \<Rightarrow> False | Some s \<Rightarrow> s \<noteq> [])"

text \<open>
  \<^verbatim>\<open>processEscrowEvent\<close> makes three separate store calls outside any transaction: the
  lookup, the conditional update and the re-read. Other writers may commit between them;
  \<open>othersA\<close> is what they do to the table between the lookup and the update, \<open>othersB\<close>
  between the update and the re-read (the identity when nobody else writes). The result
  is the returned escrow or the error, the table afterwards and the events broadcast.
\<close>

definition processEscrowEvent ::
  "(escrow_table \<Rightarrow> escrow_table) \<Rightarrow> (escrow_table \<Rightarrow> escrow_table) \<Rightarrow> escrow_table
     \<Rightarrow> EscrowEventPayload \<Rightarrow> (error + escrow) \<times> escrow_table \<times> ws_event list"
where
  "processEscrowEvent othersA othersB db event =
     (let escrowId = (case ev_escrowId event of None \<Rightarrow> [] | Some s \<Rightarrow> trim s) in
      if escrowId = [] then (Inl (ValidationError ''escrowId is required''), db, [])
      else case normalizeStatus (ev_status event) ''status'' of
        Inl err \<Rightarrow> (Inl err, db, [])
      | Inr status \<Rightarrow>
         (case escrow_findUnique db escrowId of
            None \<Rightarrow> (Inl (NotFoundError ''Escrow not found''), db, [])
          | Some existing \<Rightarrow>
              if status \<notin> ESCROW_ALLOWED_TRANSITIONS (e_status existing)
              then (Inl (ValidationError (''Illegal escrow status transition: ''
                           @ status_name (e_status existing) @ '' -> '' @ status_name status)),
                    db, [])
              else
                (let updateResult =
                       escrow_updateMany
                         (\<lambda>e. e_id e = escrowId \<and> e_status e = e_status existing)
                         (\<lambda>e. e\<lparr>e_status := status,
                                 e_stellarTxHash := (if truthy (ev_stellarTxHash event)
                                                     then ev_stellarTxHash event
                                                     else e_stellarTxHash e)\<rparr>)
                         (othersA db);
                     db1 = fst updateResult
                 in if snd updateResult \<noteq> 1
                    then (Inl (ValidationError
                      ''Escrow status changed concurrently. Please retry with latest state.''),
                          db1, [])
                    else
                      (let db2 = othersB db1 in
                       case escrow_findUnique db2 escrowId of
                         None \<Rightarrow> (Inl (NotFoundError ''Escrow not found''), db2, [])
                       | Some updated \<Rightarrow>
                           (Inr updated, db2,
                            if e_status existing \<noteq> e_status updated
                            then [EscrowUpdated (e_id updated) (e_status updated)]
                            else [])))))"

text \<open>
  The timeout detector. \<^verbatim>\<open>timeoutDetector\<close> installs the interval timer once (the
  service state holds its period in milliseconds); \<open>timeoutTick\<close> is the timer's callback.
  Its three store calls are \<open>overdueEscrows\<close>, \<open>expireOverdue\<close> and \<open>expiredEscrows\<close>;
  \<open>fails\<close> tells which of them throws, and \<open>othersA\<close>, \<open>othersB\<close> are the writes
  other clients commit between them.
\<close>

record EscrowService =
  timeoutTimer :: "nat option"

definition timeoutDetector :: "EscrowService \<Rightarrow> EscrowService" where
  "timeoutDetector svc =
     (if timeoutTimer svc \<noteq> None then svc else svc\<lparr>timeoutTimer := Some 60000\<rparr>)"

datatype store_call = FindOverdue | UpdateOverdue | FindExpired

definition overdueEscrows :: "int \<Rightarrow> escrow_table \<Rightarrow> string list" where
  "overdueEscrows now db =
     map e_id (filter (\<lambda>e. e_status e = ACTIVE \<and> e_expiresAt e < now) db)"

definition expireOverdue :: "string list \<Rightarrow> escrow_table \<Rightarrow> escrow_table \<times> nat" where
  "expireOverdue ids db =
     escrow_updateMany (\<lambda>e. e_status e = ACTIVE \<and> e_id e \<in> set ids)
       (\<lambda>e. e\<lparr>e_status := EXPIRED\<rparr>) db"

definition expiredEscrows :: "string list \<Rightarrow> escrow_table \<Rightarrow> string list" where
  "expiredEscrows ids db =
     map e_id (filter (\<lambda>e. e_id e \<in> set ids \<and> e_status e = EXPIRED) db)"

definition tick_failed :: string where
  "tick_failed = ''Escrow timeout detector failed:''"

definition timeoutTick ::
  "(store_call \<Rightarrow> bool) \<Rightarrow> (escrow_table \<Rightarrow> escrow_table) \<Rightarrow> (escrow_table \<Rightarrow> escrow_table)
     \<Rightarrow> int \<Rightarrow> EscrowService \<times> escrow_table
     \<Rightarrow> EscrowService \<times> escrow_table \<times> ws_event list \<times> string list"
where
  "timeoutTick fails othersA othersB now state =
     (let svc = fst state; db = snd state in
      if fails FindOverdue then (svc, db, [], [tick_failed])
      else
        (let overdue = overdueEscrows now db in
         if overdue = [] then (svc, db, [], [])
         else
           (let db1 = othersA db in
            if fails UpdateOverdue then (svc, db1, [], [tick_failed])
            else
              (let db2 = othersB (fst (expireOverdue overdue db1)) in
               if fails FindExpired then (svc, db2, [], [tick_failed])
               else (svc, db2, map (\<lambda>i. EscrowUpdated i EXPIRED) (expiredEscrows overdue db2),
                     [])))))"

text \<open>
  \<open>follows_table before after\<close>: the two tables hold the same escrows row by row, and the
  status of each row of \<open>after\<close> is an allowed successor of its status in \<open>before\<close>.
\<close>

definition follows_table :: "escrow_table \<Rightarrow> escrow_table \<Rightarrow> bool" where
  "follows_table before after \<longleftrightarrow>
     list_all2 (\<lambda>r r'. e_id r' = e_id r
                  \<and> e_status r' \<in> ESCROW_ALLOWED_TRANSITIONS (e_status r)) before after"


text \<open>
  An escrow of 500 USDC between users \<open>A\<close> and \<open>B\<close> that expires at time 100, with a
  given identifier and status: the row the examples below run on.
\<close>

definition example_escrow :: "string \<Rightarrow> EscrowStatus \<Rightarrow> escrow" where
  "example_escrow i st =
     \<lparr>e_id = i, e_buyerId = ''A'', e_sellerId = ''B'', e_amount = ''500'',
      e_assetCode = ''USDC'', e_status = st, e_expiresAt = 100, e_stellarTxHash = None,
      e_createdAt = 1\<rparr>"

definition example_event :: "string \<Rightarrow> string \<Rightarrow> EscrowEventPayload" where
  "example_event i st = \<lparr>ev_escrowId = Some i, ev_status = Some st, ev_stellarTxHash = None\<rparr>"

lemmas escrow_eval =
  processEscrowEvent_def normalizeStatus_def trim_def is_space_def toUpperCase_def
  upper_char_def ESCROW_STATUSES_def escrow_findUnique_def escrow_updateMany_def truthy_def
  example_escrow_def example_event_def Let_def


text \<open>
  What another request does to the table when it runs \<^verbatim>\<open>processEscrowEvent\<close> on its own,
  from lookup to re-read, in between two store calls of the operation under study.
\<close>

definition concurrent_event :: "EscrowEventPayload \<Rightarrow> escrow_table \<Rightarrow> escrow_table" where
  "concurrent_event event d = fst (snd (processEscrowEvent (\<lambda>t. t) (\<lambda>t. t) d event))"


section \<open>Loan service\<close>





record user =
  u_id :: string
  u_stellarAddress :: string

























section \<open>Authentication and wallet service\<close>

definition CHALLENGE_TTL_MS :: int where
  "CHALLENGE_TTL_MS = 10 * 60 * 1000"

datatype ChallengePurpose = LOGIN | LINK_WALLET

type_synonym byte = "8 word"

datatype encoding = Hex | Base64

text \<open>
  The library functions the service calls: \<open>fromPublicKey_ok a\<close> holds when
  \<^verbatim>\<open>Keypair.fromPublicKey(a)\<close> does not throw, \<open>keypair_verify a m s\<close> is the result of
  verifying the signature \<open>s\<close> of the message \<open>m\<close> under the key \<open>a\<close>, and \<open>buffer_from\<close>
  is \<^verbatim>\<open>Buffer.from\<close> with an encoding.
\<close>

record sdk =
  fromPublicKey_ok :: "string \<Rightarrow> bool"
  keypair_verify :: "string \<Rightarrow> string \<Rightarrow> byte list \<Rightarrow> bool"
  buffer_from :: "encoding \<Rightarrow> string \<Rightarrow> byte list"

record wallet =
  w_id :: string
  w_userId :: string
  w_address :: string
  w_isPrimary :: bool
  w_label :: "string option"
  w_createdAt :: int

record walletChallenge =
  c_userId :: "string option"
  c_walletAddress :: string
  c_nonce :: string
  c_purpose :: ChallengePurpose
  c_expiresAt :: int
  c_usedAt :: "int option"

record auth_store =
  as_users :: "user list"
  as_wallets :: "wallet list"
  as_challenges :: "walletChallenge list"

definition requireNonEmptyString :: "string \<Rightarrow> string \<Rightarrow> error + string" where
  "requireNonEmptyString v fieldName =
     (if trim v = [] then Inl (ValidationError (fieldName @ '' is required''))
      else Inr (trim v))"

definition normalizeAddress :: "string \<Rightarrow> error + string" where
  "normalizeAddress address =
     map_sum id toUpperCase (requireNonEmptyString address ''walletAddress'')"

definition assertValidStellarAddress :: "sdk \<Rightarrow> string \<Rightarrow> error + unit" where
  "assertValidStellarAddress lib address =
     (if fromPublicKey_ok lib address then Inr ()
      else Inl (ValidationError ''Invalid Stellar wallet address''))"

definition buildChallengeMessage :: "ChallengePurpose \<Rightarrow> string \<Rightarrow> string" where
  "buildChallengeMessage purpose nonce =
     ''stellovault:'' @ (if purpose = LOGIN then ''login'' else ''link-wallet'') @ '':'' @ nonce"

text \<open>The two regular expressions of \<^verbatim>\<open>decodeSignature\<close>.\<close>

definition is_hex_char :: "char \<Rightarrow> bool" where
  "is_hex_char c \<longleftrightarrow> c \<in> set ''0123456789abcdefABCDEF''"

definition is_base64_char :: "char \<Rightarrow> bool" where
  "is_base64_char c \<longleftrightarrow>
     c \<in> set ''ABCDEFGHIJKLMNOPQRSTUVWXYZabcdefghijklmnopqrstuvwxyz0123456789+/''"

definition matches_hex :: "string \<Rightarrow> bool" where
  "matches_hex v \<longleftrightarrow> v \<noteq> [] \<and> list_all is_hex_char v"

definition matches_base64 :: "string \<Rightarrow> bool" where
  "matches_base64 v \<longleftrightarrow>
     takeWhile is_base64_char v \<noteq> []
     \<and> dropWhile is_base64_char v \<in> set [[], ''='', ''=='']"

definition decodeSignature :: "sdk \<Rightarrow> string \<Rightarrow> error + byte list" where
  "decodeSignature lib signature =
     (case requireNonEmptyString signature ''signature'' of
        Inl err \<Rightarrow> Inl err
      | Inr v \<Rightarrow>
          if matches_hex v \<and> length v mod 2 = 0 \<and> length (buffer_from lib Hex v) = 64
            then Inr (buffer_from lib Hex v)
          else if matches_base64 v \<and> length (buffer_from lib Base64 v) = 64
            then Inr (buffer_from lib Base64 v)
          else Inl (ValidationError ''Signature must be a 64-byte hex or base64 value''))"

text \<open>The row filter of the consuming update.\<close>

definition challenge_matches ::
  "string \<Rightarrow> string \<Rightarrow> ChallengePurpose \<Rightarrow> string option \<Rightarrow> int \<Rightarrow> walletChallenge \<Rightarrow> bool"
where
  "challenge_matches address nonce purpose userId now c \<longleftrightarrow>
     c_walletAddress c = address \<and> c_nonce c = nonce \<and> c_purpose c = purpose
     \<and> c_usedAt c = None \<and> c_expiresAt c > now
     \<and> (truthy userId \<longrightarrow> c_userId c = userId)"

text \<open>
  \<^verbatim>\<open>verifyAndConsumeChallenge\<close> at time \<open>now\<close>. It returns the store as the update left
  it; the enclosing transaction of the caller undoes the update when the call fails.
\<close>

definition verifyAndConsumeChallenge ::
  "sdk \<Rightarrow> int \<Rightarrow> auth_store \<Rightarrow> string \<Rightarrow> string \<Rightarrow> string \<Rightarrow> ChallengePurpose
     \<Rightarrow> string option \<Rightarrow> (error + unit) \<times> auth_store"
where
  "verifyAndConsumeChallenge lib now db address nonce signature purpose userId =
     (case requireNonEmptyString nonce ''nonce'' of
        Inl err \<Rightarrow> (Inl err, db)
      | Inr normalizedNonce \<Rightarrow>
         (case decodeSignature lib signature of
            Inl err \<Rightarrow> (Inl err, db)
          | Inr signatureBytes \<Rightarrow>
              if \<not> fromPublicKey_ok lib address
                then (Inl (OtherError ''invalid encoded string''), db)
              else if \<not> keypair_verify lib address
                          (buildChallengeMessage purpose normalizedNonce) signatureBytes
                then (Inl (UnauthorizedError ''Invalid signature''), db)
              else
                (let matching = challenge_matches address normalizedNonce purpose userId now;
                     db1 = db\<lparr>as_challenges :=
                              map (\<lambda>c. if matching c then c\<lparr>c_usedAt := Some now\<rparr> else c)
                                (as_challenges db)\<rparr>;
                     count = length (filter matching (as_challenges db))
                 in if count \<noteq> 1
                    then (Inl (UnauthorizedError ''Invalid or expired challenge''), db1)
                    else (Inr (), db1))))"

definition lockUserRow :: "auth_store \<Rightarrow> string \<Rightarrow> error + unit" where
  "lockUserRow db userId =
     (if filter (\<lambda>u. u_id u = userId) (as_users db) = []
      then Inl (NotFoundError ''User not found'') else Inr ())"

text \<open>
  \<^verbatim>\<open>randomBytes(n)\<close> reads \<open>n\<close> bytes of the entropy source, and \<^verbatim>\<open>toString("hex")\<close>
  prints each byte as two lower-case hexadecimal digits.
\<close>

definition randomBytes :: "(nat \<Rightarrow> byte) \<Rightarrow> nat \<Rightarrow> byte list" where
  "randomBytes entropy n = map entropy [0..<n]"

definition hex_digit :: "nat \<Rightarrow> char" where
  "hex_digit n = ''0123456789abcdef'' ! (n mod 16)"

definition toHex :: "byte list \<Rightarrow> string" where
  "toHex bs = concat (map (\<lambda>b. [hex_digit (unat b div 16), hex_digit (unat b mod 16)]) bs)"

record challenge_response =
  cr_nonce :: string
  cr_expiresAt :: int
  cr_message :: string

text \<open>
  \<^verbatim>\<open>generateChallenge\<close> at time \<open>now\<close>. The store rejects a second row with the same
  address, nonce and purpose (its unique index) with the error \<^verbatim>\<open>P2002\<close>.
\<close>

definition generateChallenge ::
  "sdk \<Rightarrow> (nat \<Rightarrow> byte) \<Rightarrow> int \<Rightarrow> auth_store \<Rightarrow> string \<Rightarrow> ChallengePurpose \<Rightarrow> string option
     \<Rightarrow> (error + challenge_response) \<times> auth_store"
where
  "generateChallenge lib entropy now db address purpose userId =
     (case normalizeAddress address of
        Inl err \<Rightarrow> (Inl err, db)
      | Inr normalizedAddress \<Rightarrow>
         (case assertValidStellarAddress lib normalizedAddress of
            Inl err \<Rightarrow> (Inl err, db)
          | Inr _ \<Rightarrow>
              if purpose = LINK_WALLET \<and> \<not> truthy userId
                then (Inl (ValidationError
                             ''userId is required for wallet linking challenges''), db)
              else
                (let nonce = toHex (randomBytes entropy 24);
                     expiresAt = now + CHALLENGE_TTL_MS;
                     created = \<lparr>c_userId = userId, c_walletAddress = normalizedAddress,
                                c_nonce = nonce, c_purpose = purpose,
                                c_expiresAt = expiresAt, c_usedAt = None\<rparr>
                 in if \<exists>c \<in> set (as_challenges db).
                         c_walletAddress c = normalizedAddress \<and> c_nonce c = nonce
                         \<and> c_purpose c = purpose
                    then (Inl (PrismaError ''P2002''), db)
                    else (Inr \<lparr>cr_nonce = nonce, cr_expiresAt = expiresAt,
                               cr_message = buildChallengeMessage purpose nonce\<rparr>,
                          db\<lparr>as_challenges := as_challenges db @ [created]\<rparr>))))"


text \<open>
  A library for the examples: three well-formed keys, a hexadecimal buffer of half the
  length of its text and a base64 buffer of three quarters, and a verification that
  accepts the signature of 64 bytes \<open>1\<close> for every key and message.
\<close>

definition example_sdk :: sdk where
  "example_sdk =
     \<lparr>fromPublicKey_ok = (\<lambda>a. a \<in> set [''GAAA'', ''GBBB'', ''GCCC'']),
      keypair_verify = (\<lambda>a m s. s = replicate 64 1),
      buffer_from = (\<lambda>enc v. case enc of
                        Hex \<Rightarrow> replicate (length v div 2) 1
                      | Base64 \<Rightarrow> replicate (length (takeWhile is_base64_char v) * 3 div 4) 2)\<rparr>"

definition empty_store :: auth_store where
  "empty_store = \<lparr>as_users = [], as_wallets = [], as_challenges = []\<rparr>"


text \<open>The store primitives on the wallet and user tables.\<close>

definition user_wallets :: "auth_store \<Rightarrow> string \<Rightarrow> wallet list" where
  "user_wallets db userId = filter (\<lambda>w. w_userId w = userId) (as_wallets db)"

definition wallet_updateMany_isPrimary :: "auth_store \<Rightarrow> string \<Rightarrow> bool \<Rightarrow> auth_store" where
  "wallet_updateMany_isPrimary db userId v =
     db\<lparr>as_wallets := map (\<lambda>w. if w_userId w = userId then w\<lparr>w_isPrimary := v\<rparr> else w)
                          (as_wallets db)\<rparr>"

definition wallet_update_isPrimary :: "auth_store \<Rightarrow> string \<Rightarrow> bool \<Rightarrow> auth_store" where
  "wallet_update_isPrimary db walletId v =
     db\<lparr>as_wallets := map (\<lambda>w. if w_id w = walletId then w\<lparr>w_isPrimary := v\<rparr> else w)
                          (as_wallets db)\<rparr>"

definition wallet_delete :: "auth_store \<Rightarrow> string \<Rightarrow> auth_store" where
  "wallet_delete db walletId =
     db\<lparr>as_wallets := filter (\<lambda>w. w_id w \<noteq> walletId) (as_wallets db)\<rparr>"

definition user_update_stellarAddress :: "auth_store \<Rightarrow> string \<Rightarrow> string \<Rightarrow> auth_store" where
  "user_update_stellarAddress db userId address =
     db\<lparr>as_users := map (\<lambda>u. if u_id u = userId then u\<lparr>u_stellarAddress := address\<rparr> else u)
                        (as_users db)\<rparr>"

text \<open>
  \<^verbatim>\<open>wallet.create\<close>: the store rejects a row whose identifier or address is already
  present (primary key and unique index) with the error \<^verbatim>\<open>P2002\<close>.
\<close>

definition wallet_create :: "auth_store \<Rightarrow> wallet \<Rightarrow> error + auth_store" where
  "wallet_create db w =
     (if \<exists>x \<in> set (as_wallets db). w_id x = w_id w \<or> w_address x = w_address w
      then Inl (PrismaError ''P2002'')
      else Inr (db\<lparr>as_wallets := as_wallets db @ [w]\<rparr>))"

text \<open>
  \<^verbatim>\<open>linkWallet\<close> at time \<open>now\<close>; \<open>newId\<close> is the identifier the store gives the new wallet.
  The body runs in one transaction: on an error the store is as before the call. The
  handler around the transaction turns the store error \<^verbatim>\<open>P2002\<close> into a
  \<open>ConflictError\<close>.
\<close>

definition linkWallet_transaction ::
  "sdk \<Rightarrow> int \<Rightarrow> string \<Rightarrow> auth_store \<Rightarrow> string \<Rightarrow> string \<Rightarrow> string \<Rightarrow> string
     \<Rightarrow> string option \<Rightarrow> error + (wallet \<times> auth_store)"
where
  "linkWallet_transaction lib now newId db userId normalizedAddress nonce signature label =
     (case lockUserRow db userId of
        Inl err \<Rightarrow> Inl err
      | Inr _ \<Rightarrow>
          if find (\<lambda>w. w_address w = normalizedAddress) (as_wallets db) \<noteq> None
            then Inl (ConflictError ''Wallet address is already linked'')
          else if (case find (\<lambda>u. u_stellarAddress u = normalizedAddress) (as_users db) of
                     None \<Rightarrow> False
                   | Some addressInUseByUser \<Rightarrow> u_id addressInUseByUser \<noteq> userId)
            then Inl (ConflictError ''Wallet address is already linked'')
          else
            case verifyAndConsumeChallenge lib now db normalizedAddress nonce signature
                   LINK_WALLET (Some userId) of
              (Inl err, _) \<Rightarrow> Inl err
            | (Inr _, db1) \<Rightarrow>
               (let walletCount = length (user_wallets db1 userId);
                    isPrimary = (walletCount = 0);
                    createdWallet =
                      \<lparr>w_id = newId, w_userId = userId, w_address = normalizedAddress,
                       w_isPrimary = isPrimary,
                       w_label = (case label of None \<Rightarrow> None
                                  | Some l \<Rightarrow> if trim l = [] then None else Some (trim l)),
                       w_createdAt = now\<rparr>
                in case wallet_create db1 createdWallet of
                     Inl err \<Rightarrow> Inl err
                   | Inr db2 \<Rightarrow>
                       Inr (createdWallet,
                            if isPrimary
                            then user_update_stellarAddress db2 userId normalizedAddress
                            else db2)))"

definition linkWallet ::
  "sdk \<Rightarrow> int \<Rightarrow> string \<Rightarrow> auth_store \<Rightarrow> string \<Rightarrow> string \<Rightarrow> string \<Rightarrow> string
     \<Rightarrow> string option \<Rightarrow> (error + wallet) \<times> auth_store"
where
  "linkWallet lib now newId db userId address nonce signature label =
     (case normalizeAddress address of
        Inl err \<Rightarrow> (Inl err, db)
      | Inr normalizedAddress \<Rightarrow>
         (case assertValidStellarAddress lib normalizedAddress of
            Inl err \<Rightarrow> (Inl err, db)
          | Inr _ \<Rightarrow>
             (case linkWallet_transaction lib now newId db userId normalizedAddress nonce
                     signature label of
                Inl (PrismaError code) \<Rightarrow>
                  (if code = ''P2002''
                   then (Inl (ConflictError ''Wallet address is already linked''), db)
                   else (Inl (PrismaError code), db))
              | Inl err \<Rightarrow> (Inl err, db)
              | Inr (createdWallet, db') \<Rightarrow> (Inr createdWallet, db'))))"

text \<open>
  \<^verbatim>\<open>unlinkWallet\<close>, one transaction. The user's wallets are read in the order of their
  creation time; \<open>reassignPrimary\<close> is the block run when the wallet to remove is the
  primary one, before the row is deleted.
\<close>

definition reassignPrimary :: "auth_store \<Rightarrow> string \<Rightarrow> wallet \<Rightarrow> auth_store" where
  "reassignPrimary db userId replacement =
     user_update_stellarAddress
       (wallet_update_isPrimary (wallet_updateMany_isPrimary db userId False)
          (w_id replacement) True)
       userId (w_address replacement)"

definition unlinkWallet :: "auth_store \<Rightarrow> string \<Rightarrow> string \<Rightarrow> (error + unit) \<times> auth_store" where
  "unlinkWallet db userId walletId =
     (case lockUserRow db userId of
        Inl err \<Rightarrow> (Inl err, db)
      | Inr _ \<Rightarrow>
         (let wallets = sort_key w_createdAt (user_wallets db userId) in
          case find (\<lambda>item. w_id item = walletId) wallets of
            None \<Rightarrow> (Inl (NotFoundError ''Wallet not found''), db)
          | Some wallet \<Rightarrow>
              if length wallets \<le> 1
                then (Inl (ValidationError ''Cannot unlink the only wallet''), db)
              else if w_isPrimary wallet then
                (case find (\<lambda>item. w_id item \<noteq> walletId) wallets of
                   None \<Rightarrow> (Inl (ValidationError ''Cannot unlink the only primary wallet''), db)
                 | Some replacement \<Rightarrow>
                     (Inr (), wallet_delete (reassignPrimary db userId replacement) walletId))
              else (Inr (), wallet_delete db walletId)))"

definition setPrimaryWallet ::
  "auth_store \<Rightarrow> string \<Rightarrow> string \<Rightarrow> (error + wallet) \<times> auth_store"
where
  "setPrimaryWallet db userId walletId =
     (case lockUserRow db userId of
        Inl err \<Rightarrow> (Inl err, db)
      | Inr _ \<Rightarrow>
         (case find (\<lambda>w. w_id w = walletId \<and> w_userId w = userId) (as_wallets db) of
            None \<Rightarrow> (Inl (NotFoundError ''Wallet not found''), db)
          | Some wallet \<Rightarrow>
              (let db1 = wallet_updateMany_isPrimary db userId False;
                   db2 = wallet_update_isPrimary db1 walletId True
               in case find (\<lambda>w. w_id w = walletId) (as_wallets db2) of
                    None \<Rightarrow> (Inl (PrismaError ''P2025''), db)
                  | Some updatedWallet \<Rightarrow>
                      (Inr updatedWallet,
                       user_update_stellarAddress db2 userId (w_address updatedWallet)))))"

text \<open>
  The wallet invariant: wallet identifiers are unique (the primary key), and every user
  that owns a wallet owns exactly one wallet flagged primary, whose address is the
  address stored on every user row of that identifier.
\<close>

definition single_primary :: "auth_store \<Rightarrow> string \<Rightarrow> bool" where
  "single_primary db userId \<longleftrightarrow>
     (user_wallets db userId = []
      \<or> (\<exists>p. filter w_isPrimary (user_wallets db userId) = [p]
             \<and> list_all (\<lambda>u. u_stellarAddress u = w_address p)
                  (filter (\<lambda>u. u_id u = userId) (as_users db))))"

definition wallet_invariant :: "auth_store \<Rightarrow> bool" where
  "wallet_invariant db \<longleftrightarrow>
     distinct (map w_id (as_wallets db)) \<and> (\<forall>userId. single_primary db userId)"


text \<open>
  A store for the examples: the user \<open>alice\<close>, whose stored address is \<open>a\<close>, a list of
  wallets and a list of challenges; a wallet of hers; a wallet-linking challenge of hers
  that expires at time 5000; and a well-formed hexadecimal signature of 128 digits.
\<close>

definition example_store :: "string \<Rightarrow> wallet list \<Rightarrow> walletChallenge list \<Rightarrow> auth_store" where
  "example_store a ws cs =
     \<lparr>as_users = [\<lparr>u_id = ''alice'', u_stellarAddress = a\<rparr>], as_wallets = ws,
      as_challenges = cs\<rparr>"

definition example_wallet :: "string \<Rightarrow> string \<Rightarrow> bool \<Rightarrow> int \<Rightarrow> wallet" where
  "example_wallet i a primary t =
     \<lparr>w_id = i, w_userId = ''alice'', w_address = a, w_isPrimary = primary, w_label = None,
      w_createdAt = t\<rparr>"

definition example_challenge :: "string \<Rightarrow> string \<Rightarrow> int option \<Rightarrow> walletChallenge" where
  "example_challenge a n used =
     \<lparr>c_userId = Some ''alice'', c_walletAddress = a, c_nonce = n, c_purpose = LINK_WALLET,
      c_expiresAt = 5000, c_usedAt = used\<rparr>"

definition example_signature :: string where
  "example_signature = replicate 128 (CHR ''a'')"






section \<open>Properties of the escrow service\<close>

lemma coerceLimit_range: "1 \<le> coerceLimit parse v \<and> coerceLimit parse v \<le> 100"
proof (cases "Number parse (case v of Undefined \<Rightarrow> NumberValue (Finite (of_int DEFAULT_LIMIT)) | _ \<Rightarrow> v)")
  case (Finite x)
  then show ?thesis
    by (auto simp: coerceLimit_def Let_def DEFAULT_LIMIT_def MAX_LIMIT_def le_floor_iff)
qed (simp_all add: coerceLimit_def DEFAULT_LIMIT_def)

lemma coercePage_range: "1 \<le> coercePage parse v"
proof (cases "Number parse (case v of Undefined \<Rightarrow> NumberValue (Finite (of_int DEFAULT_PAGE)) | _ \<Rightarrow> v)")
  case (Finite x)
  then show ?thesis
    by (auto simp: coercePage_def Let_def DEFAULT_PAGE_def MIN_PAGE_def le_floor_iff)
qed (simp_all add: coercePage_def DEFAULT_PAGE_def)

lemma coerce_default:
  assumes "v = Undefined \<or> Number parse v = NaN \<or> js_less (Number parse v) 1"
  shows "coerceLimit parse v = 20" and "coercePage parse v = 1"
  using assms
  by (cases v; auto simp: coerceLimit_def coercePage_def DEFAULT_LIMIT_def DEFAULT_PAGE_def
        MIN_PAGE_def MAX_LIMIT_def)+

lemma coerce_floor:
  assumes "v \<noteq> Undefined" and "Number parse v = Finite x" and "1 \<le> x"
  shows "coercePage parse v = \<lfloor>x\<rfloor>" and "coerceLimit parse v = min 100 \<lfloor>x\<rfloor>"
  using assms
  by (cases v; simp add: coerceLimit_def coercePage_def MIN_PAGE_def MAX_LIMIT_def)+

lemma listEscrows_pagination:
  assumes "listEscrows parse db query = Inr (items, pg)"
  shows "p_page pg = coercePage parse (q_page query)"
    and "p_limit pg = coerceLimit parse (q_limit query)"
    and "1 \<le> p_totalPages pg"
    and "int (length items) \<le> coerceLimit parse (q_limit query)"
    and "p_total pg = 0 \<Longrightarrow> p_totalPages pg = 1"
  using assms coerceLimit_range [of parse "q_limit query"]
  by (auto simp: listEscrows_def Let_def split: sum.splits if_splits)

text \<open>
  Claim C10. \<^verbatim>\<open>listEscrows\<close> clamps \<open>page\<close> and \<open>limit\<close> before use: a missing,
  non-numeric or less-than-1 limit becomes 20 and a limit never exceeds 100; a missing,
  non-numeric or less-than-1 page becomes 1; other values are floored; the pagination
  reports the clamped values, at most \<open>limit\<close> items are returned, and \<open>totalPages\<close> is
  at least 1, also when nothing matches.
\<close>

theorem listEscrows_clamps_page_and_limit:
  "(v = Undefined \<or> Number parse v = NaN \<or> js_less (Number parse v) 1
      \<longrightarrow> coerceLimit parse v = 20 \<and> coercePage parse v = 1)
   \<and> coerceLimit parse v \<le> 100
   \<and> (v \<noteq> Undefined \<and> Number parse v = Finite x \<and> 1 \<le> x
      \<longrightarrow> coercePage parse v = \<lfloor>x\<rfloor> \<and> coerceLimit parse v = min 100 \<lfloor>x\<rfloor>)
   \<and> (listEscrows parse db query = Inr (items, pg)
      \<longrightarrow> p_page pg = coercePage parse (q_page query)
        \<and> p_limit pg = coerceLimit parse (q_limit query)
        \<and> int (length items) \<le> coerceLimit parse (q_limit query)
        \<and> 1 \<le> p_totalPages pg
        \<and> (p_total pg = 0 \<longrightarrow> p_totalPages pg = 1))"
  using coerce_default [of v parse] coerce_floor [of v parse x]
    coerceLimit_range [of parse v] listEscrows_pagination [of parse db query items pg]
  by blast

theorem listEscrows_clamps_page_and_limit_witness:
  "coerceLimit (\<lambda>s. NaN) (StringValue ''abc'') = 20
   \<and> coercePage (\<lambda>s. NaN) (StringValue ''abc'') = 1
   \<and> coerceLimit (\<lambda>s. NaN) (StringValue ''abc'') \<le> 100
   \<and> coercePage (\<lambda>s. NaN) (NumberValue (Finite (7 / 2))) = 3
   \<and> coerceLimit (\<lambda>s. NaN) (NumberValue (Finite (501 / 2))) = 100
   \<and> listEscrows (\<lambda>s. NaN) []
        \<lparr>q_buyerId = None, q_sellerId = None, q_status = None,
         q_page = Undefined, q_limit = NumberValue (Finite 0)\<rparr>
       = Inr ([], \<lparr>p_page = 1, p_limit = 20, p_total = 0, p_totalPages = 1\<rparr>)"
proof -
  let ?q = "\<lparr>q_buyerId = None, q_sellerId = None, q_status = None,
             q_page = Undefined, q_limit = NumberValue (Finite 0)\<rparr>"
  let ?pg = "\<lparr>p_page = 1, p_limit = 20, p_total = 0, p_totalPages = 1\<rparr>"
  have run: "listEscrows (\<lambda>s. NaN) [] ?q = Inr ([], ?pg)"
    by (simp add: listEscrows_def coercePage_def coerceLimit_def filter_given_def
          DEFAULT_PAGE_def DEFAULT_LIMIT_def MIN_PAGE_def MAX_LIMIT_def)
  have a: "coerceLimit (\<lambda>s. NaN) (StringValue ''abc'') = 20
           \<and> coercePage (\<lambda>s. NaN) (StringValue ''abc'') = 1
           \<and> coerceLimit (\<lambda>s. NaN) (StringValue ''abc'') \<le> 100"
    using listEscrows_clamps_page_and_limit
            [where v = "StringValue ''abc''" and parse = "\<lambda>s. NaN" and x = 0 and db = "[]"
               and query = ?q and items = "[]" and pg = ?pg]
    by simp
  have fl: "\<lfloor>7 / 2 :: rat\<rfloor> = 3" "\<lfloor>501 / 2 :: rat\<rfloor> = 250"
    by code_simp+
  have b: "coercePage (\<lambda>s. NaN) (NumberValue (Finite (7 / 2))) = 3"
    using listEscrows_clamps_page_and_limit
            [where v = "NumberValue (Finite (7 / 2))" and parse = "\<lambda>s. NaN" and x = "7 / 2"
               and db = "[]" and query = ?q and items = "[]" and pg = ?pg]
    by (simp add: fl)
  have c: "coerceLimit (\<lambda>s. NaN) (NumberValue (Finite (501 / 2))) = 100"
    using listEscrows_clamps_page_and_limit
            [where v = "NumberValue (Finite (501 / 2))" and parse = "\<lambda>s. NaN"
               and x = "501 / 2" and db = "[]" and query = ?q and items = "[]" and pg = ?pg]
    by (simp add: fl)
  show ?thesis using a b c run by simp
qed

lemma allowed_self: "s \<in> ESCROW_ALLOWED_TRANSITIONS s"
  by (cases s) simp_all

lemma follows_table_refl: "follows_table d d"
  by (simp add: follows_table_def list_all2_same allowed_self)

lemma follows_table_write:
  assumes "s \<in> ESCROW_ALLOWED_TRANSITIONS st"
  shows "follows_table d
           (fst (escrow_updateMany (\<lambda>e. e_id e = i \<and> e_status e = st)
                   (\<lambda>e. e\<lparr>e_status := s, e_stellarTxHash := h e\<rparr>) d))"
  using assms
  by (simp add: follows_table_def escrow_updateMany_def list_all2_map2 list_all2_same
        allowed_self)

lemma processEscrowEvent_rejects:
  assumes "ev_escrowId event = Some i" and "trim i \<noteq> []"
    and "normalizeStatus (ev_status event) ''status'' = Inr s"
    and "escrow_findUnique db (trim i) = Some existing"
    and "s \<notin> ESCROW_ALLOWED_TRANSITIONS (e_status existing)"
  shows "processEscrowEvent othersA othersB db event =
           (Inl (ValidationError (''Illegal escrow status transition: ''
                   @ status_name (e_status existing) @ '' -> '' @ status_name s)), db, [])"
  using assms by (simp add: processEscrowEvent_def)

lemma processEscrowEvent_own_write:
  assumes "processEscrowEvent othersA othersB db event = (res, db', evs)"
  shows "\<exists>w. follows_table (othersA db) w \<and> (db' = db \<or> db' = w \<or> db' = othersB w)"
proof (cases "db' = db")
  case True
  then show ?thesis using follows_table_refl by blast
next
  case False
  have "\<exists>i s (existing :: escrow). s \<in> ESCROW_ALLOWED_TRANSITIONS (e_status existing) \<and>
          (let w = fst (escrow_updateMany (\<lambda>e. e_id e = i \<and> e_status e = e_status existing)
                 (\<lambda>e. e\<lparr>e_status := s,
                         e_stellarTxHash := (if truthy (ev_stellarTxHash event)
                                             then ev_stellarTxHash event
                                             else e_stellarTxHash e)\<rparr>) (othersA db))
           in db' = w \<or> db' = othersB w)"
    using assms False
    by (auto simp: processEscrowEvent_def Let_def
          split: if_splits sum.splits option.splits)
  then obtain i s and existing :: escrow
    where ok: "s \<in> ESCROW_ALLOWED_TRANSITIONS (e_status existing)"
      and w: "let w = fst (escrow_updateMany
                 (\<lambda>e. e_id e = i \<and> e_status e = e_status existing)
                 (\<lambda>e. e\<lparr>e_status := s,
                         e_stellarTxHash := (if truthy (ev_stellarTxHash event)
                                             then ev_stellarTxHash event
                                             else e_stellarTxHash e)\<rparr>) (othersA db))
              in db' = w \<or> db' = othersB w"
    by blast
  from follows_table_write [OF ok, where d = "othersA db" and i = i
         and h = "\<lambda>e. if truthy (ev_stellarTxHash event) then ev_stellarTxHash event
                      else e_stellarTxHash e"]
    w
  show ?thesis unfolding Let_def by blast
qed

text \<open>
  Claim C3. Whatever \<^verbatim>\<open>processEscrowEvent\<close> writes follows the transition table: the
  table it leaves is the table it was called on, or the table \<open>w\<close> obtained from the
  table at the time of its update by allowed moves only (possibly changed afterwards by
  the other writers); with no other writer the final table follows the initial one. A
  requested status outside the allowed set of the current status fails with
  \<open>ValidationError\<close>, writes nothing and emits nothing, so \<open>COMPLETED\<close> and \<open>EXPIRED\<close>
  admit the self-loop only.
\<close>

theorem processEscrowEvent_follows_transition_table:
  "(processEscrowEvent othersA othersB db event = (res, db', evs)
      \<longrightarrow> (\<exists>w. follows_table (othersA db) w \<and> (db' = db \<or> db' = w \<or> db' = othersB w)))
   \<and> (processEscrowEvent (\<lambda>d. d) (\<lambda>d. d) db event = (res, db', evs)
      \<longrightarrow> follows_table db db')
   \<and> (ev_escrowId event = Some i \<and> trim i \<noteq> []
       \<and> normalizeStatus (ev_status event) ''status'' = Inr s
       \<and> escrow_findUnique db (trim i) = Some existing
       \<and> s \<notin> ESCROW_ALLOWED_TRANSITIONS (e_status existing)
      \<longrightarrow> processEscrowEvent othersA othersB db event =
            (Inl (ValidationError (''Illegal escrow status transition: ''
                    @ status_name (e_status existing) @ '' -> '' @ status_name s)), db, []))
   \<and> (ev_escrowId event = Some i \<and> trim i \<noteq> []
       \<and> normalizeStatus (ev_status event) ''status'' = Inr s
       \<and> escrow_findUnique db (trim i) = Some existing
       \<and> (e_status existing = COMPLETED \<or> e_status existing = EXPIRED)
       \<and> s \<noteq> e_status existing
      \<longrightarrow> (\<exists>msg. processEscrowEvent othersA othersB db event =
                   (Inl (ValidationError msg), db, [])))"
proof (intro conjI impI)
  assume "processEscrowEvent othersA othersB db event = (res, db', evs)"
  then show "\<exists>w. follows_table (othersA db) w \<and> (db' = db \<or> db' = w \<or> db' = othersB w)"
    by (rule processEscrowEvent_own_write)
next
  assume "processEscrowEvent (\<lambda>d. d) (\<lambda>d. d) db event = (res, db', evs)"
  from processEscrowEvent_own_write [OF this] show "follows_table db db'"
    using follows_table_refl by auto
next
  assume "ev_escrowId event = Some i \<and> trim i \<noteq> []
       \<and> normalizeStatus (ev_status event) ''status'' = Inr s
       \<and> escrow_findUnique db (trim i) = Some existing
       \<and> s \<notin> ESCROW_ALLOWED_TRANSITIONS (e_status existing)"
  then show "processEscrowEvent othersA othersB db event =
            (Inl (ValidationError (''Illegal escrow status transition: ''
                    @ status_name (e_status existing) @ '' -> '' @ status_name s)), db, [])"
    using processEscrowEvent_rejects by blast
next
  assume a: "ev_escrowId event = Some i \<and> trim i \<noteq> []
       \<and> normalizeStatus (ev_status event) ''status'' = Inr s
       \<and> escrow_findUnique db (trim i) = Some existing
       \<and> (e_status existing = COMPLETED \<or> e_status existing = EXPIRED)
       \<and> s \<noteq> e_status existing"
  then have "s \<notin> ESCROW_ALLOWED_TRANSITIONS (e_status existing)" by auto
  with a show "\<exists>msg. processEscrowEvent othersA othersB db event =
                   (Inl (ValidationError msg), db, [])"
    using processEscrowEvent_rejects by blast
qed

theorem processEscrowEvent_follows_transition_table_witness:
  "follows_table [example_escrow ''e1'' PENDING] [example_escrow ''e1'' ACTIVE]
   \<and> processEscrowEvent (\<lambda>d. d) (\<lambda>d. d) [example_escrow ''e1'' COMPLETED]
         (example_event ''e1'' ''ACTIVE'')
       = (Inl (ValidationError ''Illegal escrow status transition: COMPLETED -> ACTIVE''),
          [example_escrow ''e1'' COMPLETED], [])"
proof -
  have run: "processEscrowEvent (\<lambda>d. d) (\<lambda>d. d) [example_escrow ''e1'' PENDING]
               (example_event ''e1'' '' active '')
             = (Inr (example_escrow ''e1'' ACTIVE), [example_escrow ''e1'' ACTIVE],
                [EscrowUpdated ''e1'' ACTIVE])"
    by (simp add: escrow_eval)
  have a: "follows_table [example_escrow ''e1'' PENDING] [example_escrow ''e1'' ACTIVE]"
    using processEscrowEvent_follows_transition_table
            [where othersA = "\<lambda>d. d" and othersB = "\<lambda>d. d"
               and db = "[example_escrow ''e1'' PENDING]"
               and event = "example_event ''e1'' '' active ''"
               and res = "Inr (example_escrow ''e1'' ACTIVE)"
               and db' = "[example_escrow ''e1'' ACTIVE]"
               and evs = "[EscrowUpdated ''e1'' ACTIVE]"
               and i = "''e1''" and s = ACTIVE and existing = "example_escrow ''e1'' PENDING"]
          run
    by blast
  have pre: "ev_escrowId (example_event ''e1'' ''ACTIVE'') = Some ''e1'' \<and> trim ''e1'' \<noteq> []
       \<and> normalizeStatus (ev_status (example_event ''e1'' ''ACTIVE'')) ''status'' = Inr ACTIVE
       \<and> escrow_findUnique [example_escrow ''e1'' COMPLETED] (trim ''e1'')
           = Some (example_escrow ''e1'' COMPLETED)
       \<and> ACTIVE \<notin> ESCROW_ALLOWED_TRANSITIONS (e_status (example_escrow ''e1'' COMPLETED))"
    by (simp add: escrow_eval)
  have b: "processEscrowEvent (\<lambda>d. d) (\<lambda>d. d) [example_escrow ''e1'' COMPLETED]
             (example_event ''e1'' ''ACTIVE'')
           = (Inl (ValidationError (''Illegal escrow status transition: ''
                @ status_name (e_status (example_escrow ''e1'' COMPLETED)) @ '' -> ''
                @ status_name ACTIVE)), [example_escrow ''e1'' COMPLETED], [])"
    using processEscrowEvent_follows_transition_table
            [where othersA = "\<lambda>d. d" and othersB = "\<lambda>d. d"
               and db = "[example_escrow ''e1'' COMPLETED]"
               and event = "example_event ''e1'' ''ACTIVE''"
               and i = "''e1''" and s = ACTIVE
               and existing = "example_escrow ''e1'' COMPLETED"]
          pre
    by blast
  show ?thesis using a b by (simp add: example_escrow_def)
qed


lemma find_id_filter:
  assumes "distinct (map e_id d)" and "find (\<lambda>e. e_id e = i) d = Some cur"
  shows "filter (\<lambda>e. e_id e = i) d = [cur]"
  using assms
proof (induction d)
  case Nil
  then show ?case by simp
next
  case (Cons a d)
  show ?case
  proof (cases "e_id a = i")
    case True
    with Cons.prems have "cur = a" and "i \<notin> e_id ` set d" by auto
    then have "filter (\<lambda>e. e_id e = i) d = []" by (auto simp: filter_empty_conv)
    with True \<open>cur = a\<close> show ?thesis by simp
  next
    case False
    with Cons show ?thesis by simp
  qed
qed

lemma count_guarded:
  assumes "distinct (map e_id d)" and "find (\<lambda>e. e_id e = i) d = Some cur"
  shows "length (filter (\<lambda>e. e_id e = i \<and> P e) d) = (if P cur then 1 else 0)"
proof -
  have "filter (\<lambda>e. e_id e = i \<and> P e) d = filter P (filter (\<lambda>e. e_id e = i) d)"
    by (simp add: conj_commute)
  then show ?thesis using find_id_filter [OF assms] by simp
qed

lemma find_map_same_id:
  assumes "\<And>e. e_id (g e) = e_id e"
  shows "find (\<lambda>e. e_id e = i) (map g d) = map_option g (find (\<lambda>e. e_id e = i) d)"
  by (induction d) (simp_all add: assms)

lemma processEscrowEvent_zero_rows:
  assumes "ev_escrowId event = Some i" and "trim i \<noteq> []"
    and "normalizeStatus (ev_status event) ''status'' = Inr s"
    and "escrow_findUnique db (trim i) = Some existing"
    and "s \<in> ESCROW_ALLOWED_TRANSITIONS (e_status existing)"
    and "\<forall>r \<in> set (othersA db). e_id r = trim i \<longrightarrow> e_status r \<noteq> e_status existing"
  shows "processEscrowEvent othersA othersB db event =
           (Inl (ValidationError
              ''Escrow status changed concurrently. Please retry with latest state.''),
            othersA db, [])"
proof -
  have none: "filter (\<lambda>e. e_id e = trim i \<and> e_status e = e_status existing) (othersA db) = []"
    using assms(6) by (auto simp: filter_empty_conv)
  have same: "map (\<lambda>e. if e_id e = trim i \<and> e_status e = e_status existing then f e else e)
                (othersA db) = othersA db" for f :: "escrow \<Rightarrow> escrow"
    using assms(6) by (intro map_idI) auto
  show ?thesis
    using assms(1-5) none same by (simp add: processEscrowEvent_def escrow_updateMany_def)
qed

lemma processEscrowEvent_event_iff:
  assumes "processEscrowEvent othersA othersB db event = (Inr updated, db', evs)"
    and "ev_escrowId event = Some i"
    and "escrow_findUnique db (trim i) = Some existing"
  shows "escrow_findUnique db' (trim i) = Some updated
         \<and> evs = (if e_status existing \<noteq> e_status updated
                  then [EscrowUpdated (e_id updated) (e_status updated)] else [])"
  using assms
  by (auto simp: processEscrowEvent_def Let_def split: if_splits sum.splits option.splits)

lemma processEscrowEvent_wins:
  assumes "ev_escrowId event = Some i" and "trim i \<noteq> []"
    and "normalizeStatus (ev_status event) ''status'' = Inr s"
    and "escrow_findUnique db (trim i) = Some existing"
    and "s \<in> ESCROW_ALLOWED_TRANSITIONS (e_status existing)"
    and "distinct (map e_id (othersA db))"
    and "escrow_findUnique (othersA db) (trim i) = Some cur"
    and "e_status cur = e_status existing"
  shows "\<exists>updated db'.
           processEscrowEvent othersA (\<lambda>d. d) db event =
             (Inr updated, db',
              if s \<noteq> e_status existing then [EscrowUpdated (trim i) s] else [])
           \<and> e_status updated = s \<and> e_id updated = trim i"
proof -
  let ?P = "\<lambda>e. e_id e = trim i \<and> e_status e = e_status existing"
  let ?f = "\<lambda>e. e\<lparr>e_status := s,
                   e_stellarTxHash := (if truthy (ev_stellarTxHash event)
                                       then ev_stellarTxHash event else e_stellarTxHash e)\<rparr>"
  let ?g = "\<lambda>e. if ?P e then ?f e else e"
  have cnt: "length (filter ?P (othersA db)) = 1"
    using count_guarded [OF assms(6), of "trim i" cur "\<lambda>e. e_status e = e_status existing"]
      assms(7,8)
    by (simp add: escrow_findUnique_def)
  have idg: "\<And>e. e_id (?g e) = e_id e" by simp
  have curid: "e_id cur = trim i"
    using assms(7) by (auto simp: escrow_findUnique_def dest: find_Some_iff [THEN iffD1])
  have found: "escrow_findUnique (map ?g (othersA db)) (trim i) = Some (?f cur)"
    using find_map_same_id [of ?g "trim i" "othersA db", OF idg] assms(7,8) curid
    by (simp add: escrow_findUnique_def)
  show ?thesis
    using assms(1-5) cnt found curid
    by (simp add: processEscrowEvent_def escrow_updateMany_def)
qed

text \<open>
  Claim C6. When the requested transition is allowed, the write of \<^verbatim>\<open>processEscrowEvent\<close>
  is an update guarded by the status it observed. If no row of the escrow still has that
  status when the update runs (another writer moved it), the call fails with the
  \<open>ValidationError\<close> asking to retry and the table is left as the other writers made it.
  On success an event is emitted exactly when the status stored at the re-read differs
  from the status observed at the lookup; when the guard matches and nobody writes
  between the update and the re-read, the call succeeds, the stored status is the
  requested one, and the event is emitted exactly when it differs from the observed
  status, so a self-loop succeeds without an event.
\<close>

theorem processEscrowEvent_conditional_update:
  "ev_escrowId event = Some i \<and> trim i \<noteq> []
   \<and> normalizeStatus (ev_status event) ''status'' = Inr s
   \<and> escrow_findUnique db (trim i) = Some existing
   \<and> s \<in> ESCROW_ALLOWED_TRANSITIONS (e_status existing)
   \<longrightarrow>
     ((\<forall>r \<in> set (othersA db). e_id r = trim i \<longrightarrow> e_status r \<noteq> e_status existing)
        \<longrightarrow> processEscrowEvent othersA othersB db event =
             (Inl (ValidationError
                ''Escrow status changed concurrently. Please retry with latest state.''),
              othersA db, []))
     \<and> (processEscrowEvent othersA othersB db event = (Inr updated, db', evs)
        \<longrightarrow> escrow_findUnique db' (trim i) = Some updated
          \<and> (evs \<noteq> [] \<longleftrightarrow> e_status updated \<noteq> e_status existing)
          \<and> (evs \<noteq> [] \<longrightarrow> evs = [EscrowUpdated (e_id updated) (e_status updated)]))
     \<and> (distinct (map e_id (othersA db))
        \<and> escrow_findUnique (othersA db) (trim i) = Some cur
        \<and> e_status cur = e_status existing
        \<longrightarrow> (\<exists>upd tbl. processEscrowEvent othersA (\<lambda>d. d) db event =
                 (Inr upd, tbl, if s \<noteq> e_status existing then [EscrowUpdated (trim i) s]
                                else [])
               \<and> e_status upd = s \<and> e_id upd = trim i))"
proof (intro impI conjI)
  assume pre: "ev_escrowId event = Some i \<and> trim i \<noteq> []
   \<and> normalizeStatus (ev_status event) ''status'' = Inr s
   \<and> escrow_findUnique db (trim i) = Some existing
   \<and> s \<in> ESCROW_ALLOWED_TRANSITIONS (e_status existing)"
  {
    assume "\<forall>r \<in> set (othersA db). e_id r = trim i \<longrightarrow> e_status r \<noteq> e_status existing"
    with pre show "processEscrowEvent othersA othersB db event =
             (Inl (ValidationError
                ''Escrow status changed concurrently. Please retry with latest state.''),
              othersA db, [])"
      using processEscrowEvent_zero_rows by blast
  }
  {
    assume run: "processEscrowEvent othersA othersB db event = (Inr updated, db', evs)"
    from processEscrowEvent_event_iff [OF run] pre
    have ev: "escrow_findUnique db' (trim i) = Some updated
         \<and> evs = (if e_status existing \<noteq> e_status updated
                  then [EscrowUpdated (e_id updated) (e_status updated)] else [])"
      by blast
    from ev show "escrow_findUnique db' (trim i) = Some updated" by simp
    from ev show "evs \<noteq> [] \<longleftrightarrow> e_status updated \<noteq> e_status existing" by auto
    {
      assume "evs \<noteq> []"
      with ev show "evs = [EscrowUpdated (e_id updated) (e_status updated)]"
        by (auto split: if_splits)
    }
  }
  {
    assume "distinct (map e_id (othersA db))
        \<and> escrow_findUnique (othersA db) (trim i) = Some cur
        \<and> e_status cur = e_status existing"
    with pre show "\<exists>upd tbl. processEscrowEvent othersA (\<lambda>d. d) db event =
                 (Inr upd, tbl, if s \<noteq> e_status existing then [EscrowUpdated (trim i) s]
                                else [])
               \<and> e_status upd = s \<and> e_id upd = trim i"
      using processEscrowEvent_wins by blast
  }
qed

theorem processEscrowEvent_conditional_update_witness:
  "processEscrowEvent (concurrent_event (example_event ''e1'' ''DISPUTED'')) (\<lambda>d. d)
       [example_escrow ''e1'' PENDING] (example_event ''e1'' ''ACTIVE'')
     = (Inl (ValidationError
          ''Escrow status changed concurrently. Please retry with latest state.''),
        [example_escrow ''e1'' DISPUTED], [])
   \<and> processEscrowEvent (\<lambda>d. d) (\<lambda>d. d)
       [example_escrow ''e1'' ACTIVE] (example_event ''e1'' ''ACTIVE'')
     = (Inr (example_escrow ''e1'' ACTIVE), [example_escrow ''e1'' ACTIVE], [])
   \<and> processEscrowEvent (\<lambda>d. d) (\<lambda>d. d)
       [example_escrow ''e1'' PENDING] (example_event ''e1'' ''ACTIVE'')
     = (Inr (example_escrow ''e1'' ACTIVE), [example_escrow ''e1'' ACTIVE],
        [EscrowUpdated ''e1'' ACTIVE])"
proof -
  let ?ev = "example_event ''e1'' ''ACTIVE''"
  let ?other = "concurrent_event (example_event ''e1'' ''DISPUTED'')"
  have other: "?other [example_escrow ''e1'' PENDING] = [example_escrow ''e1'' DISPUTED]"
    by (simp add: concurrent_event_def escrow_eval)
  have pre: "ev_escrowId ?ev = Some ''e1'' \<and> trim ''e1'' \<noteq> []
     \<and> normalizeStatus (ev_status ?ev) ''status'' = Inr ACTIVE
     \<and> escrow_findUnique [example_escrow ''e1'' PENDING] (trim ''e1'')
         = Some (example_escrow ''e1'' PENDING)
     \<and> ACTIVE \<in> ESCROW_ALLOWED_TRANSITIONS (e_status (example_escrow ''e1'' PENDING))"
    by (simp add: escrow_eval)
  have moved: "\<forall>r \<in> set (?other [example_escrow ''e1'' PENDING]).
                 e_id r = trim ''e1'' \<longrightarrow> e_status r \<noteq> e_status (example_escrow ''e1'' PENDING)"
    by (simp add: other) (simp add: example_escrow_def)
  have a: "processEscrowEvent ?other (\<lambda>d. d) [example_escrow ''e1'' PENDING] ?ev
     = (Inl (ValidationError
          ''Escrow status changed concurrently. Please retry with latest state.''),
        ?other [example_escrow ''e1'' PENDING], [])"
    using processEscrowEvent_conditional_update
            [where event = ?ev and i = "''e1''" and s = ACTIVE
               and db = "[example_escrow ''e1'' PENDING]"
               and existing = "example_escrow ''e1'' PENDING"
               and othersA = ?other and othersB = "\<lambda>d. d"]
          pre moved
    by blast
  have b: "processEscrowEvent (\<lambda>d. d) (\<lambda>d. d)
       [example_escrow ''e1'' ACTIVE] ?ev
     = (Inr (example_escrow ''e1'' ACTIVE), [example_escrow ''e1'' ACTIVE], [])"
    by (simp add: escrow_eval)
  have c: "processEscrowEvent (\<lambda>d. d) (\<lambda>d. d)
       [example_escrow ''e1'' PENDING] ?ev
     = (Inr (example_escrow ''e1'' ACTIVE), [example_escrow ''e1'' ACTIVE],
        [EscrowUpdated ''e1'' ACTIVE])"
    by (simp add: escrow_eval)
  show ?thesis using a b c other by simp
qed


lemma overdue_iff:
  assumes "distinct (map e_id db)" and "e \<in> set db"
  shows "e_id e \<in> set (overdueEscrows now db)
           \<longleftrightarrow> e_status e = ACTIVE \<and> e_expiresAt e < now"
proof -
  have inj: "inj_on e_id (set db)" using assms(1) by (simp add: distinct_map)
  show ?thesis
    using assms(2) inj by (auto simp: overdueEscrows_def inj_on_def)
qed

lemma sweep_reread:
  assumes "distinct (map e_id db)"
  shows "expiredEscrows (overdueEscrows now db)
           (fst (expireOverdue (overdueEscrows now db) db)) = overdueEscrows now db"
proof -
  let ?ov = "overdueEscrows now db"
  let ?g = "\<lambda>e. if e_status e = ACTIVE \<and> e_id e \<in> set ?ov then e\<lparr>e_status := EXPIRED\<rparr> else e"
  have sel: "filter ((\<lambda>e. e_id e \<in> set ?ov \<and> e_status e = EXPIRED) \<circ> ?g) db
             = filter (\<lambda>e. e_status e = ACTIVE \<and> e_expiresAt e < now) db"
    by (rule filter_cong [OF refl]) (use overdue_iff [OF assms] in auto)
  have "expiredEscrows ?ov (fst (expireOverdue ?ov db))
          = map (e_id \<circ> ?g) (filter ((\<lambda>e. e_id e \<in> set ?ov \<and> e_status e = EXPIRED) \<circ> ?g) db)"
    by (simp add: expiredEscrows_def expireOverdue_def escrow_updateMany_def filter_map)
  also have "\<dots> = map e_id (filter (\<lambda>e. e_status e = ACTIVE \<and> e_expiresAt e < now) db)"
    unfolding sel by (rule map_cong [OF refl]) simp
  finally show ?thesis by (simp add: overdueEscrows_def)
qed

lemma timeoutTick_alone:
  assumes "distinct (map e_id db)"
  shows "timeoutTick (\<lambda>c. False) (\<lambda>d. d) (\<lambda>d. d) now (svc, db) =
           (svc, fst (expireOverdue (overdueEscrows now db) db),
            map (\<lambda>i. EscrowUpdated i EXPIRED) (overdueEscrows now db), [])"
proof (cases "overdueEscrows now db = []")
  case True
  then have "\<forall>e \<in> set db. \<not> (e_status e = ACTIVE \<and> e_id e \<in> set (overdueEscrows now db))"
    by simp
  then have "fst (expireOverdue (overdueEscrows now db) db) = db"
    unfolding expireOverdue_def escrow_updateMany_def by (auto intro: map_idI)
  with True show ?thesis by (simp add: timeoutTick_def)
next
  case False
  then show ?thesis
    using sweep_reread [OF assms, of now] by (simp add: timeoutTick_def Let_def)
qed

lemma timeoutTick_events:
  assumes "timeoutTick fails othersA othersB now (svc, db) = (svc', db', evs, logged)"
  shows "svc' = svc"
    and "logged = [] \<or> (logged = [tick_failed] \<and> evs = [])"
    and "logged = [] \<Longrightarrow>
           evs = map (\<lambda>i. EscrowUpdated i EXPIRED) (expiredEscrows (overdueEscrows now db) db')"
    and "fails FindOverdue \<Longrightarrow> logged = [tick_failed]"
  using assms
  by (auto simp: timeoutTick_def Let_def expiredEscrows_def tick_failed_def split: if_splits)

text \<open>
  Claim C9, as the code has it. A tick selects the escrows that are \<open>ACTIVE\<close> with
  \<open>expiresAt\<close> before now; its update sets to \<open>EXPIRED\<close> the rows that are selected and
  still \<open>ACTIVE\<close> and leaves every other row as it is; when no store call fails it emits
  one event for each row of a selected escrow that is \<open>EXPIRED\<close> at the re-read, and
  nothing for an escrow that was not selected. When no other writer intervenes (and
  identifiers are unique) these are exactly the selected escrows, which the sweep
  flipped. A store failure is logged, emits nothing, and leaves the timer installed; the
  timer is installed once, with a period of 60000 milliseconds.
\<close>

theorem timeoutTick_sweep:
  "set (overdueEscrows now db)
      = {i. \<exists>e \<in> set db. e_id e = i \<and> e_status e = ACTIVE \<and> e_expiresAt e < now}
   \<and> fst (expireOverdue ids d)
      = map (\<lambda>e. if e_status e = ACTIVE \<and> e_id e \<in> set ids
                 then e\<lparr>e_status := EXPIRED\<rparr> else e) d
   \<and> (timeoutTick fails othersA othersB now (svc, db) = (svc', db', evs, logged)
      \<longrightarrow> svc' = svc
        \<and> (logged = [] \<or> (logged = [tick_failed] \<and> evs = []))
        \<and> (fails FindOverdue \<longrightarrow> logged = [tick_failed])
        \<and> (logged = [] \<longrightarrow>
             evs = map (\<lambda>i. EscrowUpdated i EXPIRED)
                     (expiredEscrows (overdueEscrows now db) db'))
        \<and> (\<forall>i. EscrowUpdated i EXPIRED \<in> set evs \<longrightarrow> i \<in> set (overdueEscrows now db)))
   \<and> (distinct (map e_id db)
      \<longrightarrow> timeoutTick (\<lambda>c. False) (\<lambda>t. t) (\<lambda>t. t) now (svc, db) =
            (svc, fst (expireOverdue (overdueEscrows now db) db),
             map (\<lambda>i. EscrowUpdated i EXPIRED) (overdueEscrows now db), []))
   \<and> timeoutTimer (timeoutDetector \<lparr>timeoutTimer = None\<rparr>) = Some 60000
   \<and> (timeoutTimer svc \<noteq> None \<longrightarrow> timeoutDetector svc = svc)"
proof (intro conjI impI allI)
  show "set (overdueEscrows now db)
      = {i. \<exists>e \<in> set db. e_id e = i \<and> e_status e = ACTIVE \<and> e_expiresAt e < now}"
    by (auto simp: overdueEscrows_def)
  show "fst (expireOverdue ids d)
      = map (\<lambda>e. if e_status e = ACTIVE \<and> e_id e \<in> set ids
                 then e\<lparr>e_status := EXPIRED\<rparr> else e) d"
    by (simp add: expireOverdue_def escrow_updateMany_def)
  show "timeoutTimer (timeoutDetector \<lparr>timeoutTimer = None\<rparr>) = Some 60000"
    by (simp add: timeoutDetector_def)
  show "timeoutDetector svc = svc" if "timeoutTimer svc \<noteq> None"
    using that by (simp add: timeoutDetector_def)
  show "timeoutTick (\<lambda>c. False) (\<lambda>t. t) (\<lambda>t. t) now (svc, db) =
            (svc, fst (expireOverdue (overdueEscrows now db) db),
             map (\<lambda>i. EscrowUpdated i EXPIRED) (overdueEscrows now db), [])"
    if "distinct (map e_id db)"
    using that by (rule timeoutTick_alone)
next
  assume run: "timeoutTick fails othersA othersB now (svc, db) = (svc', db', evs, logged)"
  note facts = timeoutTick_events [OF run]
  show "svc' = svc" by (rule facts(1))
  show "logged = [] \<or> (logged = [tick_failed] \<and> evs = [])" by (rule facts(2))
  show "logged = [tick_failed]" if "fails FindOverdue" using that by (rule facts(4))
  show "evs = map (\<lambda>i. EscrowUpdated i EXPIRED) (expiredEscrows (overdueEscrows now db) db')"
    if "logged = []" using that by (rule facts(3))
  show "i \<in> set (overdueEscrows now db)" if "EscrowUpdated i EXPIRED \<in> set evs" for i
  proof -
    from facts(2) that have "logged = []" by auto
    from facts(3) [OF this] that show ?thesis by (auto simp: expiredEscrows_def)
  qed
qed

theorem timeoutTick_sweep_witness:
  "timeoutTick (\<lambda>c. False) (\<lambda>t. t) (\<lambda>t. t) 200
       (\<lparr>timeoutTimer = Some 60000\<rparr>,
        [example_escrow ''e1'' ACTIVE, example_escrow ''e2'' PENDING,
         (example_escrow ''e3'' ACTIVE)\<lparr>e_expiresAt := 900\<rparr>])
     = (\<lparr>timeoutTimer = Some 60000\<rparr>,
        [example_escrow ''e1'' EXPIRED, example_escrow ''e2'' PENDING,
         (example_escrow ''e3'' ACTIVE)\<lparr>e_expiresAt := 900\<rparr>],
        [EscrowUpdated ''e1'' EXPIRED], [])
   \<and> timeoutTick (\<lambda>c. c = UpdateOverdue) (\<lambda>t. t) (\<lambda>t. t) 200
       (\<lparr>timeoutTimer = Some 60000\<rparr>, [example_escrow ''e1'' ACTIVE])
     = (\<lparr>timeoutTimer = Some 60000\<rparr>, [example_escrow ''e1'' ACTIVE], [], [tick_failed])"
proof -
  let ?svc = "\<lparr>timeoutTimer = Some 60000\<rparr>"
  let ?db = "[example_escrow ''e1'' ACTIVE, example_escrow ''e2'' PENDING,
              (example_escrow ''e3'' ACTIVE)\<lparr>e_expiresAt := 900\<rparr>]"
  have d: "distinct (map e_id ?db)" by (simp add: example_escrow_def)
  have ov: "overdueEscrows 200 ?db = [''e1'']"
    by (simp add: overdueEscrows_def example_escrow_def)
  have a: "timeoutTick (\<lambda>c. False) (\<lambda>t. t) (\<lambda>t. t) 200 (?svc, ?db) =
            (?svc, fst (expireOverdue (overdueEscrows 200 ?db) ?db),
             map (\<lambda>i. EscrowUpdated i EXPIRED) (overdueEscrows 200 ?db), [])"
    using timeoutTick_sweep [where db = ?db and now = 200 and svc = ?svc] d by blast
  have upd: "fst (expireOverdue [''e1''] ?db)
             = [example_escrow ''e1'' EXPIRED, example_escrow ''e2'' PENDING,
                (example_escrow ''e3'' ACTIVE)\<lparr>e_expiresAt := 900\<rparr>]"
    by (simp add: expireOverdue_def escrow_updateMany_def example_escrow_def)
  have b: "timeoutTick (\<lambda>c. c = UpdateOverdue) (\<lambda>t. t) (\<lambda>t. t) 200
             (?svc, [example_escrow ''e1'' ACTIVE])
           = (?svc, [example_escrow ''e1'' ACTIVE], [], [tick_failed])"
    by (simp add: timeoutTick_def overdueEscrows_def example_escrow_def)
  show ?thesis using a b by (simp add: ov upd)
qed

text \<open>
  Claim C9 as stated fails when another request expires a selected escrow between the
  selection and the update: the sweep's update then matches no row, so the sweep flips
  nothing, and yet the tick emits a status-changed event for that escrow.
\<close>

theorem timeoutTick_event_without_flip:
  "snd (expireOverdue (overdueEscrows 200 [example_escrow ''e1'' ACTIVE])
          (concurrent_event (example_event ''e1'' ''EXPIRED'') [example_escrow ''e1'' ACTIVE]))
     = 0
   \<and> timeoutTick (\<lambda>c. False) (concurrent_event (example_event ''e1'' ''EXPIRED'')) (\<lambda>t. t) 200
       (\<lparr>timeoutTimer = Some 60000\<rparr>, [example_escrow ''e1'' ACTIVE])
     = (\<lparr>timeoutTimer = Some 60000\<rparr>, [example_escrow ''e1'' EXPIRED],
        [EscrowUpdated ''e1'' EXPIRED], [])"
proof -
  have other: "concurrent_event (example_event ''e1'' ''EXPIRED'') [example_escrow ''e1'' ACTIVE]
               = [example_escrow ''e1'' EXPIRED]"
    by (simp add: concurrent_event_def escrow_eval)
  have ov: "overdueEscrows 200 [example_escrow ''e1'' ACTIVE] = [''e1'']"
    by (simp add: overdueEscrows_def example_escrow_def)
  have upd: "expireOverdue [''e1''] [example_escrow ''e1'' EXPIRED]
             = ([example_escrow ''e1'' EXPIRED], 0)"
    by (simp add: expireOverdue_def escrow_updateMany_def example_escrow_def)
  have rd: "expiredEscrows [''e1''] [example_escrow ''e1'' EXPIRED] = [''e1'']"
    by (simp add: expiredEscrows_def example_escrow_def)
  show ?thesis
    by (simp add: timeoutTick_def Let_def other ov upd rd)
qed


section \<open>Properties of the loan service\<close>


















section \<open>Properties of the authentication and wallet service\<close>

lemma hex_digit_is_hex: "is_hex_char (hex_digit n)"
proof -
  have "n mod 16 < length ''0123456789abcdef''" by simp
  then have "hex_digit n \<in> set ''0123456789abcdef''"
    unfolding hex_digit_def by (rule nth_mem)
  then show ?thesis by (auto simp: is_hex_char_def)
qed

lemma toHex_length: "length (toHex bs) = 2 * length bs"
  by (induction bs) (simp_all add: toHex_def)

lemma toHex_hex: "list_all is_hex_char (toHex bs)"
  by (induction bs) (simp_all add: toHex_def hex_digit_is_hex)

lemma generateChallenge_success:
  assumes "generateChallenge lib entropy now db address purpose userId = (Inr r, db')"
  shows "cr_nonce r = toHex (randomBytes entropy 24)"
    and "cr_message r = buildChallengeMessage purpose (cr_nonce r)"
    and "cr_expiresAt r = now + 600000"
    and "\<exists>a. normalizeAddress address = Inr a \<and> fromPublicKey_ok lib a
           \<and> as_challenges db' = as_challenges db @
               [\<lparr>c_userId = userId, c_walletAddress = a, c_nonce = cr_nonce r,
                 c_purpose = purpose, c_expiresAt = now + 600000, c_usedAt = None\<rparr>]"
    and "purpose = LINK_WALLET \<longrightarrow> truthy userId"
  using assms
  by (auto simp: generateChallenge_def assertValidStellarAddress_def CHALLENGE_TTL_MS_def
        Let_def split: sum.splits if_splits)

text \<open>
  Claim C7, as the code has it. \<^verbatim>\<open>generateChallenge\<close> fails with \<open>ValidationError\<close>
  (message "Invalid Stellar wallet address") when the normalised address is not a
  well-formed public key, and with \<open>ValidationError\<close> when the purpose is \<open>LINK_WALLET\<close>
  and no user is given. On success the nonce is the hexadecimal text of 24 random bytes
  (48 hexadecimal digits), the message is a function of purpose and nonce, and one
  challenge row is stored for the normalised address with \<open>usedAt\<close> empty and
  \<open>expiresAt\<close> ten minutes (600000 ms) after now.
\<close>

theorem generateChallenge_issues:
  "(normalizeAddress address = Inr a \<and> \<not> fromPublicKey_ok lib a
      \<longrightarrow> generateChallenge lib entropy now db address purpose userId =
            (Inl (ValidationError ''Invalid Stellar wallet address''), db))
   \<and> (normalizeAddress address = Inr a \<and> fromPublicKey_ok lib a
       \<and> purpose = LINK_WALLET \<and> \<not> truthy userId
      \<longrightarrow> generateChallenge lib entropy now db address purpose userId =
            (Inl (ValidationError ''userId is required for wallet linking challenges''), db))
   \<and> (generateChallenge lib entropy now db address purpose userId = (Inr r, db')
      \<longrightarrow> cr_nonce r = toHex (randomBytes entropy 24)
        \<and> length (randomBytes entropy 24) = 24
        \<and> length (cr_nonce r) = 48 \<and> list_all is_hex_char (cr_nonce r)
        \<and> cr_message r = buildChallengeMessage purpose (cr_nonce r)
        \<and> cr_expiresAt r = now + 10 * 60 * 1000
        \<and> (\<exists>n. normalizeAddress address = Inr n \<and> fromPublicKey_ok lib n
              \<and> as_challenges db' = as_challenges db @
                  [\<lparr>c_userId = userId, c_walletAddress = n, c_nonce = cr_nonce r,
                    c_purpose = purpose, c_expiresAt = now + 10 * 60 * 1000,
                    c_usedAt = None\<rparr>]))"
proof (intro conjI impI)
  assume "normalizeAddress address = Inr a \<and> \<not> fromPublicKey_ok lib a"
  then show "generateChallenge lib entropy now db address purpose userId =
            (Inl (ValidationError ''Invalid Stellar wallet address''), db)"
    by (simp add: generateChallenge_def assertValidStellarAddress_def)
next
  assume "normalizeAddress address = Inr a \<and> fromPublicKey_ok lib a
       \<and> purpose = LINK_WALLET \<and> \<not> truthy userId"
  then show "generateChallenge lib entropy now db address purpose userId =
            (Inl (ValidationError ''userId is required for wallet linking challenges''), db)"
    by (simp add: generateChallenge_def assertValidStellarAddress_def)
next
  assume run: "generateChallenge lib entropy now db address purpose userId = (Inr r, db')"
  note f = generateChallenge_success [OF run]
  show "cr_nonce r = toHex (randomBytes entropy 24)" by (rule f(1))
  show "length (randomBytes entropy 24) = 24" by (simp add: randomBytes_def)
  show "length (cr_nonce r) = 48" by (simp add: f(1) toHex_length randomBytes_def)
  show "list_all is_hex_char (cr_nonce r)" by (simp add: f(1) toHex_hex)
  show "cr_message r = buildChallengeMessage purpose (cr_nonce r)" by (rule f(2))
  show "cr_expiresAt r = now + 10 * 60 * 1000" using f(3) by simp
  show "\<exists>n. normalizeAddress address = Inr n \<and> fromPublicKey_ok lib n
              \<and> as_challenges db' = as_challenges db @
                  [\<lparr>c_userId = userId, c_walletAddress = n, c_nonce = cr_nonce r,
                    c_purpose = purpose, c_expiresAt = now + 10 * 60 * 1000,
                    c_usedAt = None\<rparr>]"
    using f(4) by simp
qed

theorem generateChallenge_issues_witness:
  "generateChallenge example_sdk (\<lambda>n. 0) 1000 empty_store '' gzzz '' LOGIN None
     = (Inl (ValidationError ''Invalid Stellar wallet address''), empty_store)
   \<and> generateChallenge example_sdk (\<lambda>n. 0) 1000 empty_store ''gaaa'' LINK_WALLET None
     = (Inl (ValidationError ''userId is required for wallet linking challenges''),
        empty_store)
   \<and> generateChallenge example_sdk (\<lambda>n. 171) 1000 empty_store ''gaaa'' LINK_WALLET
       (Some ''alice'')
     = (Inr \<lparr>cr_nonce = concat (replicate 24 ''ab''), cr_expiresAt = 601000,
             cr_message = ''stellovault:link-wallet:'' @ concat (replicate 24 ''ab'')\<rparr>,
        empty_store\<lparr>as_challenges :=
          [\<lparr>c_userId = Some ''alice'', c_walletAddress = ''GAAA'',
            c_nonce = concat (replicate 24 ''ab''), c_purpose = LINK_WALLET,
            c_expiresAt = 601000, c_usedAt = None\<rparr>]\<rparr>)"
proof -
  have n1: "normalizeAddress '' gzzz '' = Inr ''GZZZ''"
    and n2: "normalizeAddress ''gaaa'' = Inr ''GAAA''"
    by (simp_all add: normalizeAddress_def requireNonEmptyString_def trim_def is_space_def
          toUpperCase_def upper_char_def)
  have k1: "\<not> fromPublicKey_ok example_sdk ''GZZZ''"
    and k2: "fromPublicKey_ok example_sdk ''GAAA''"
    by (simp_all add: example_sdk_def)
  have a: "generateChallenge example_sdk (\<lambda>n. 0) 1000 empty_store '' gzzz '' LOGIN None
     = (Inl (ValidationError ''Invalid Stellar wallet address''), empty_store)"
    using generateChallenge_issues
            [where address = "'' gzzz ''" and a = "''GZZZ''" and lib = example_sdk
               and entropy = "\<lambda>n. 0" and now = 1000 and db = empty_store
               and purpose = LOGIN and userId = None]
          n1 k1
    by blast
  have b: "generateChallenge example_sdk (\<lambda>n. 0) 1000 empty_store ''gaaa'' LINK_WALLET None
     = (Inl (ValidationError ''userId is required for wallet linking challenges''),
        empty_store)"
    using generateChallenge_issues
            [where address = "''gaaa''" and a = "''GAAA''" and lib = example_sdk
               and entropy = "\<lambda>n. 0" and now = 1000 and db = empty_store
               and purpose = LINK_WALLET and userId = None]
          n2 k2
    by (simp add: truthy_def)
  have hx: "toHex (randomBytes (\<lambda>n. 171) 24) = concat (replicate 24 ''ab'')"
  proof -
    have "hex_digit (unat (171 :: byte) div 16) = CHR ''a''"
      and "hex_digit (unat (171 :: byte) mod 16) = CHR ''b''"
      by (simp_all add: hex_digit_def)
    then show ?thesis
      by (simp add: toHex_def randomBytes_def map_replicate_const)
  qed
  have c: "generateChallenge example_sdk (\<lambda>n. 171) 1000 empty_store ''gaaa'' LINK_WALLET
       (Some ''alice'')
     = (Inr \<lparr>cr_nonce = concat (replicate 24 ''ab''), cr_expiresAt = 601000,
             cr_message = ''stellovault:link-wallet:'' @ concat (replicate 24 ''ab'')\<rparr>,
        empty_store\<lparr>as_challenges :=
          [\<lparr>c_userId = Some ''alice'', c_walletAddress = ''GAAA'',
            c_nonce = concat (replicate 24 ''ab''), c_purpose = LINK_WALLET,
            c_expiresAt = 601000, c_usedAt = None\<rparr>]\<rparr>)"
    by (simp add: generateChallenge_def n2 k2 assertValidStellarAddress_def truthy_def hx
          CHALLENGE_TTL_MS_def buildChallengeMessage_def empty_store_def Let_def)
  show ?thesis using a b c by simp
qed

text \<open>
  Claim C7 as stated names the error \<open>InvalidAddress\<close>; the error raised for a malformed
  address is of class \<open>ValidationError\<close>.
\<close>

theorem generateChallenge_invalid_address_is_ValidationError:
  "map_sum error_name cr_nonce
     (fst (generateChallenge example_sdk (\<lambda>n. 0) 1000 empty_store ''not a key'' LOGIN None))
   = Inl ''ValidationError''"
  by (simp add: generateChallenge_def normalizeAddress_def requireNonEmptyString_def trim_def
        is_space_def toUpperCase_def upper_char_def assertValidStellarAddress_def
        example_sdk_def)


lemma wallet_filter_id:
  assumes "distinct (map w_id ws)" and "w \<in> set ws"
  shows "filter (\<lambda>x. w_id x = w_id w) ws = [w]"
  using assms
proof (induction ws)
  case Nil
  then show ?case by simp
next
  case (Cons a ws)
  show ?case
  proof (cases "a = w")
    case True
    with Cons.prems have "w_id w \<notin> w_id ` set ws" by auto
    then have "filter (\<lambda>x. w_id x = w_id w) ws = []"
      unfolding filter_empty_conv image_iff by metis
    with True show ?thesis by simp
  next
    case False
    with Cons.prems have "w \<in> set ws" and "w_id a \<noteq> w_id w" by auto
    with Cons show ?thesis by simp
  qed
qed

lemma wallet_same_id:
  assumes "distinct (map w_id ws)" and "x \<in> set ws" and "y \<in> set ws" and "w_id x = w_id y"
  shows "x = y"
  using assms by (meson distinct_map inj_on_def)

lemma user_wallets_distinct:
  "distinct (map w_id (as_wallets db)) \<Longrightarrow> distinct (map w_id (user_wallets db u))"
  by (simp add: user_wallets_def distinct_map_filter)

lemma reassignPrimary_wallets:
  "as_wallets (reassignPrimary db uid r) =
     map (\<lambda>w. if w_id w = w_id r then w\<lparr>w_isPrimary := True\<rparr>
               else if w_userId w = uid then w\<lparr>w_isPrimary := False\<rparr> else w)
       (as_wallets db)"
  by (simp add: reassignPrimary_def user_update_stellarAddress_def wallet_update_isPrimary_def
        wallet_updateMany_isPrimary_def)

lemma reassignPrimary_users:
  "as_users (reassignPrimary db uid r) =
     map (\<lambda>u. if u_id u = uid then u\<lparr>u_stellarAddress := w_address r\<rparr> else u) (as_users db)"
  by (simp add: reassignPrimary_def user_update_stellarAddress_def wallet_update_isPrimary_def
        wallet_updateMany_isPrimary_def)

lemma reassignPrimary_invariant:
  assumes d: "distinct (map w_id (as_wallets db))"
    and r: "r \<in> set (as_wallets db)" and ru: "w_userId r = uid"
    and others: "\<And>u. u \<noteq> uid \<Longrightarrow> single_primary db u"
  shows "wallet_invariant (reassignPrimary db uid r)"
    and "filter w_isPrimary (user_wallets (reassignPrimary db uid r) uid)
           = [r\<lparr>w_isPrimary := True\<rparr>]"
    and "list_all (\<lambda>u. u_stellarAddress u = w_address r)
           (filter (\<lambda>u. u_id u = uid) (as_users (reassignPrimary db uid r)))"
proof -
  let ?h = "\<lambda>w. if w_id w = w_id r then w\<lparr>w_isPrimary := True\<rparr>
                 else if w_userId w = uid then w\<lparr>w_isPrimary := False\<rparr> else w"
  let ?k = "\<lambda>u. if u_id u = uid then u\<lparr>u_stellarAddress := w_address r\<rparr> else u"
  let ?db = "reassignPrimary db uid r"
  have hu: "(\<lambda>w. w_userId w = u) \<circ> ?h = (\<lambda>w. w_userId w = u)" for u
    by (rule ext) simp
  have hi: "w_id \<circ> ?h = w_id" by (rule ext) simp
  have ku: "(\<lambda>x. u_id x = u) \<circ> ?k = (\<lambda>x. u_id x = u)" for u
    by (rule ext) simp
  have uw: "user_wallets ?db u = map ?h (user_wallets db u)" for u
    unfolding user_wallets_def reassignPrimary_wallets filter_map hu ..
  have us: "filter (\<lambda>x. u_id x = u) (as_users ?db)
            = map ?k (filter (\<lambda>x. u_id x = u) (as_users db))" for u
    unfolding reassignPrimary_users filter_map ku ..
  have dist: "distinct (map w_id (as_wallets ?db))"
    using d unfolding reassignPrimary_wallets map_map hi .
  have rin: "r \<in> set (user_wallets db uid)" using r ru by (simp add: user_wallets_def)
  have prim: "filter w_isPrimary (user_wallets ?db uid) = [r\<lparr>w_isPrimary := True\<rparr>]"
  proof -
    have sel: "filter (w_isPrimary \<circ> ?h) (user_wallets db uid)
               = filter (\<lambda>x. w_id x = w_id r) (user_wallets db uid)"
      by (rule filter_cong [OF refl]) (simp add: user_wallets_def)
    have "filter w_isPrimary (user_wallets ?db uid)
            = map ?h (filter (\<lambda>x. w_id x = w_id r) (user_wallets db uid))"
      by (simp add: uw filter_map sel)
    also have "\<dots> = map ?h [r]"
      using wallet_filter_id [OF user_wallets_distinct [OF d] rin] by simp
    finally show ?thesis by simp
  qed
  have addr: "list_all (\<lambda>u. u_stellarAddress u = w_address r)
                (filter (\<lambda>u. u_id u = uid) (as_users ?db))"
    by (simp add: us list_all_iff)
  have own: "single_primary ?db uid"
    unfolding single_primary_def using prim addr by auto
  have other: "single_primary ?db u" if "u \<noteq> uid" for u
  proof -
    have same_w: "map ?h (user_wallets db u) = user_wallets db u"
    proof (rule map_idI)
      fix x assume x: "x \<in> set (user_wallets db u)"
      then have xin: "x \<in> set (as_wallets db)" and xu: "w_userId x = u"
        by (simp_all add: user_wallets_def)
      have "w_id x \<noteq> w_id r"
      proof
        assume "w_id x = w_id r"
        from wallet_same_id [OF d xin r this] xu ru that show False by simp
      qed
      with xu that show "?h x = x" by simp
    qed
    have same_u: "map ?k (filter (\<lambda>x. u_id x = u) (as_users db))
                  = filter (\<lambda>x. u_id x = u) (as_users db)"
      by (rule map_idI) (use that in auto)
    show ?thesis
      using others [OF that]
      by (simp add: single_primary_def uw us same_w same_u)
  qed
  show "wallet_invariant ?db"
    unfolding wallet_invariant_def
  proof (intro conjI allI)
    show "distinct (map w_id (as_wallets ?db))" by (rule dist)
    show "single_primary ?db u" for u
      by (cases "u = uid") (simp_all add: own other)
  qed
  show "filter w_isPrimary (user_wallets ?db uid) = [r\<lparr>w_isPrimary := True\<rparr>]" by (rule prim)
  show "list_all (\<lambda>u. u_stellarAddress u = w_address r)
           (filter (\<lambda>u. u_id u = uid) (as_users ?db))" by (rule addr)
qed

lemma wallet_delete_invariant:
  assumes inv: "wallet_invariant db"
    and w: "w \<in> set (as_wallets db)" and np: "\<not> w_isPrimary w"
  shows "wallet_invariant (wallet_delete db (w_id w))"
proof -
  let ?db = "wallet_delete db (w_id w)"
  have d: "distinct (map w_id (as_wallets db))" using inv by (simp add: wallet_invariant_def)
  have dist: "distinct (map w_id (as_wallets ?db))"
    using d by (simp add: wallet_delete_def distinct_map_filter)
  have uw: "user_wallets ?db u = filter (\<lambda>x. w_id x \<noteq> w_id w) (user_wallets db u)" for u
    by (auto simp: user_wallets_def wallet_delete_def intro: filter_cong)
  have us: "as_users ?db = as_users db" by (simp add: wallet_delete_def)
  have "single_primary ?db u" for u
  proof (cases "user_wallets db u = []")
    case True
    then show ?thesis by (simp add: single_primary_def uw)
  next
    case False
    with inv obtain p where
      p: "filter w_isPrimary (user_wallets db u) = [p]"
      and a: "list_all (\<lambda>x. u_stellarAddress x = w_address p)
                (filter (\<lambda>x. u_id x = u) (as_users db))"
      by (auto simp: wallet_invariant_def single_primary_def)
    from p have "p \<in> set (filter w_isPrimary (user_wallets db u))" by simp
    then have pin: "p \<in> set (as_wallets db)" and pp: "w_isPrimary p"
      by (simp_all add: user_wallets_def)
    have "w_id p \<noteq> w_id w"
    proof
      assume "w_id p = w_id w"
      from wallet_same_id [OF d pin w this] pp np show False by simp
    qed
    have "filter w_isPrimary (filter (\<lambda>x. w_id x \<noteq> w_id w) (user_wallets db u))
            = filter (\<lambda>x. w_id x \<noteq> w_id w) (filter w_isPrimary (user_wallets db u))"
      by (simp add: conj_commute)
    with \<open>w_id p \<noteq> w_id w\<close> have "filter w_isPrimary (user_wallets ?db u) = [p]"
      by (simp only: uw p) simp
    with a show ?thesis by (auto simp: single_primary_def us)
  qed
  with dist show ?thesis by (simp add: wallet_invariant_def)
qed


lemma verifyAndConsumeChallenge_tables:
  assumes "verifyAndConsumeChallenge lib now db address nonce signature purpose userId = (r, db1)"
  shows "as_wallets db1 = as_wallets db" and "as_users db1 = as_users db"
  using assms
  by (auto simp: verifyAndConsumeChallenge_def Let_def split: sum.splits if_splits)

lemma linkWallet_success:
  assumes "linkWallet lib now nid db uid address nonce signature label = (Inr w, db')"
  shows "\<exists>a db1.
           normalizeAddress address = Inr a \<and> fromPublicKey_ok lib a
           \<and> lockUserRow db uid = Inr ()
           \<and> verifyAndConsumeChallenge lib now db a nonce signature LINK_WALLET (Some uid)
               = (Inr (), db1)
           \<and> (\<forall>x \<in> set (as_wallets db). w_id x \<noteq> nid \<and> w_address x \<noteq> a)
           \<and> w_id w = nid \<and> w_userId w = uid \<and> w_address w = a
           \<and> (w_isPrimary w \<longleftrightarrow> user_wallets db uid = [])
           \<and> as_wallets db' = as_wallets db @ [w]
           \<and> as_challenges db' = as_challenges db1
           \<and> as_users db' =
               (if user_wallets db uid = []
                then map (\<lambda>u. if u_id u = uid then u\<lparr>u_stellarAddress := a\<rparr> else u)
                       (as_users db)
                else as_users db)"
proof -
  from assms obtain a where a: "normalizeAddress address = Inr a"
    by (auto simp: linkWallet_def split: sum.splits)
  from assms a have ok: "fromPublicKey_ok lib a"
    by (auto simp: linkWallet_def assertValidStellarAddress_def split: sum.splits if_splits)
  from assms a ok obtain created where
    tx: "linkWallet_transaction lib now nid db uid a nonce signature label = Inr (created, db')"
    and cw: "created = w"
    by (auto simp: linkWallet_def assertValidStellarAddress_def
          split: sum.splits error.splits if_splits)
  from tx have lock: "lockUserRow db uid = Inr ()"
    by (auto simp: linkWallet_transaction_def split: sum.splits)
  from tx lock obtain db1 where
    v: "verifyAndConsumeChallenge lib now db a nonce signature LINK_WALLET (Some uid)
          = (Inr (), db1)"
    by (auto simp: linkWallet_transaction_def split: sum.splits if_splits prod.splits)
  note t = verifyAndConsumeChallenge_tables [OF v]
  have uw: "user_wallets db1 uid = user_wallets db uid"
    by (simp add: user_wallets_def t)
  show ?thesis
    apply (intro exI [of _ a] exI [of _ db1])
    using tx lock v a ok cw
    apply (auto simp: linkWallet_transaction_def wallet_create_def Let_def uw t
             user_update_stellarAddress_def
             split: if_splits option.splits)
    done
qed

lemma linkWallet_invariant:
  assumes inv: "wallet_invariant db"
    and run: "linkWallet lib now nid db uid address nonce signature label = (Inr w, db')"
  shows "wallet_invariant db'"
proof -
  from linkWallet_success [OF run] obtain a where
    fresh: "\<forall>x \<in> set (as_wallets db). w_id x \<noteq> nid \<and> w_address x \<noteq> a"
    and w: "w_id w = nid" "w_userId w = uid" "w_address w = a"
           "w_isPrimary w \<longleftrightarrow> user_wallets db uid = []"
    and ws: "as_wallets db' = as_wallets db @ [w]"
    and us: "as_users db' =
               (if user_wallets db uid = []
                then map (\<lambda>u. if u_id u = uid then u\<lparr>u_stellarAddress := a\<rparr> else u)
                       (as_users db)
                else as_users db)"
    by blast
  have d: "distinct (map w_id (as_wallets db))" using inv by (simp add: wallet_invariant_def)
  have dist: "distinct (map w_id (as_wallets db'))"
    using d fresh w(1) by (auto simp: ws)
  have uw: "user_wallets db' u = user_wallets db u @ (if u = uid then [w] else [])" for u
    using w(2) by (auto simp: user_wallets_def ws)
  let ?k = "\<lambda>u. if u_id u = uid then u\<lparr>u_stellarAddress := a\<rparr> else u"
  have ku: "(\<lambda>x. u_id x = u) \<circ> ?k = (\<lambda>x. u_id x = u)" for u
    by (rule ext) simp
  have "single_primary db' u" for u
  proof (cases "u = uid")
    case True
    show ?thesis
    proof (cases "user_wallets db uid = []")
      case empty: True
      have "filter (\<lambda>x. u_id x = uid) (as_users db')
              = map ?k (filter (\<lambda>x. u_id x = uid) (as_users db))"
        unfolding us using empty by (simp add: filter_map ku)
      then have "list_all (\<lambda>x. u_stellarAddress x = w_address w)
                   (filter (\<lambda>x. u_id x = uid) (as_users db'))"
        by (simp add: list_all_iff w(3))
      moreover have "filter w_isPrimary (user_wallets db' uid) = [w]"
        using empty w(4) by (simp add: uw)
      ultimately show ?thesis using True by (auto simp: single_primary_def)
    next
      case False
      with inv obtain p where
        p: "filter w_isPrimary (user_wallets db uid) = [p]"
        and ad: "list_all (\<lambda>x. u_stellarAddress x = w_address p)
                   (filter (\<lambda>x. u_id x = uid) (as_users db))"
        by (auto simp: wallet_invariant_def single_primary_def)
      have "filter w_isPrimary (user_wallets db' uid) = [p]"
        using False w(4) p by (simp add: uw)
      moreover have "as_users db' = as_users db" using False by (simp add: us)
      ultimately show ?thesis using True ad by (auto simp: single_primary_def)
    qed
  next
    case False
    have same: "filter (\<lambda>x. u_id x = u) (as_users db') = filter (\<lambda>x. u_id x = u) (as_users db)"
    proof (cases "user_wallets db uid = []")
      case True
      have "map ?k (filter (\<lambda>x. u_id x = u) (as_users db))
              = filter (\<lambda>x. u_id x = u) (as_users db)"
        by (rule map_idI) (use False in auto)
      then show ?thesis unfolding us using True by (simp add: filter_map ku)
    next
      case False
      then show ?thesis by (simp add: us)
    qed
    from inv have "single_primary db u" by (simp add: wallet_invariant_def)
    then show ?thesis using False by (simp add: single_primary_def uw same)
  qed
  with dist show ?thesis by (simp add: wallet_invariant_def)
qed

lemma find_SomeD: "find P xs = Some x \<Longrightarrow> x \<in> set xs \<and> P x"
  by (induction xs) (auto split: if_splits)

lemma find_of_filter_single: "filter P xs = [y] \<Longrightarrow> find P xs = Some y"
  by (induction xs) (auto split: if_splits)

lemma setPrimaryWallet_success:
  assumes d: "distinct (map w_id (as_wallets db))"
    and run: "setPrimaryWallet db uid wid = (Inr w, db')"
  shows "\<exists>r. r \<in> set (as_wallets db) \<and> w_id r = wid \<and> w_userId r = uid
           \<and> w = r\<lparr>w_isPrimary := True\<rparr> \<and> db' = reassignPrimary db uid r"
proof -
  from run obtain r where
    f: "find (\<lambda>w. w_id w = wid \<and> w_userId w = uid) (as_wallets db) = Some r"
    by (auto simp: setPrimaryWallet_def split: sum.splits option.splits)
  then have r: "r \<in> set (as_wallets db)" "w_id r = wid" "w_userId r = uid"
    by (auto simp: find_Some_iff)
  let ?h = "\<lambda>w. if w_id w = w_id r then w\<lparr>w_isPrimary := True\<rparr>
                 else if w_userId w = uid then w\<lparr>w_isPrimary := False\<rparr> else w"
  let ?db2 = "wallet_update_isPrimary (wallet_updateMany_isPrimary db uid False) wid True"
  have ws2: "as_wallets ?db2 = map ?h (as_wallets db)"
    using r(2) by (simp add: wallet_update_isPrimary_def wallet_updateMany_isPrimary_def)
  have hi: "(\<lambda>w. w_id w = wid) \<circ> ?h = (\<lambda>w. w_id w = wid)" by (rule ext) simp
  have "filter (\<lambda>w. w_id w = wid) (as_wallets ?db2)
          = map ?h (filter (\<lambda>w. w_id w = w_id r) (as_wallets db))"
    unfolding ws2 filter_map hi using r(2) by simp
  also have "\<dots> = [r\<lparr>w_isPrimary := True\<rparr>]"
    using wallet_filter_id [OF d r(1)] by simp
  finally have "filter (\<lambda>w. w_id w = wid) (as_wallets ?db2) = [r\<lparr>w_isPrimary := True\<rparr>]" .
  then have fnd: "find (\<lambda>w. w_id w = wid) (as_wallets ?db2) = Some (r\<lparr>w_isPrimary := True\<rparr>)"
    by (rule find_of_filter_single)
  show ?thesis
    apply (intro exI [of _ r])
    using run f fnd r
    apply (simp add: setPrimaryWallet_def Let_def reassignPrimary_def split: sum.splits)
    done
qed


lemma unlinkWallet_success:
  assumes d: "distinct (map w_id (as_wallets db))"
    and run: "unlinkWallet db uid wid = (Inr (), db')"
  shows "\<exists>wallet. wallet \<in> set (user_wallets db uid) \<and> w_id wallet = wid
           \<and> 2 \<le> length (user_wallets db uid)
           \<and> (\<not> w_isPrimary wallet \<longrightarrow> db' = wallet_delete db wid)
           \<and> (w_isPrimary wallet \<longrightarrow>
                (\<exists>r. r \<in> set (user_wallets db uid) \<and> w_id r \<noteq> wid
                   \<and> db' = wallet_delete (reassignPrimary db uid r) wid))"
proof -
  let ?ws = "sort_key w_createdAt (user_wallets db uid)"
  from run obtain wallet where f: "find (\<lambda>item. w_id item = wid) ?ws = Some wallet"
    by (auto simp: unlinkWallet_def Let_def split: sum.splits option.splits)
  then have "wallet \<in> set ?ws \<and> w_id wallet = wid"
    by (rule find_SomeD)
  then have w: "wallet \<in> set (user_wallets db uid)" "w_id wallet = wid"
    by simp_all
  from run f have len: "2 \<le> length (user_wallets db uid)"
    by (auto simp: unlinkWallet_def Let_def split: sum.splits if_splits)
  have prim: "\<exists>r. r \<in> set (user_wallets db uid) \<and> w_id r \<noteq> wid
                \<and> db' = wallet_delete (reassignPrimary db uid r) wid"
    if "w_isPrimary wallet"
  proof -
    from run f that obtain r where
      fr: "find (\<lambda>item. w_id item \<noteq> wid) ?ws = Some r"
      and db': "db' = wallet_delete (reassignPrimary db uid r) wid"
      by (auto simp: unlinkWallet_def Let_def split: sum.splits if_splits option.splits)
    from fr have "r \<in> set ?ws \<and> w_id r \<noteq> wid"
      by (rule find_SomeD)
    then have "r \<in> set (user_wallets db uid)" "w_id r \<noteq> wid" by simp_all
    with db' show ?thesis by blast
  qed
  have nonprim: "db' = wallet_delete db wid" if "\<not> w_isPrimary wallet"
    using run f that
    by (auto simp: unlinkWallet_def Let_def split: sum.splits if_splits)
  from w len prim nonprim show ?thesis by blast
qed

lemma unlinkWallet_invariant:
  assumes inv: "wallet_invariant db"
    and run: "unlinkWallet db uid wid = (Inr (), db')"
  shows "wallet_invariant db'"
proof -
  have d: "distinct (map w_id (as_wallets db))" using inv by (simp add: wallet_invariant_def)
  from unlinkWallet_success [OF d run] obtain wallet where
    w: "wallet \<in> set (user_wallets db uid)" "w_id wallet = wid"
    and np: "\<not> w_isPrimary wallet \<longrightarrow> db' = wallet_delete db wid"
    and pr: "w_isPrimary wallet \<longrightarrow>
                (\<exists>r. r \<in> set (user_wallets db uid) \<and> w_id r \<noteq> wid
                   \<and> db' = wallet_delete (reassignPrimary db uid r) wid)"
    by blast
  from w have win: "wallet \<in> set (as_wallets db)" and wu: "w_userId wallet = uid"
    by (simp_all add: user_wallets_def)
  show ?thesis
  proof (cases "w_isPrimary wallet")
    case False
    with np have "db' = wallet_delete db (w_id wallet)" by (simp add: w(2))
    with wallet_delete_invariant [OF inv win False] show ?thesis by simp
  next
    case True
    with pr obtain r where
      r: "r \<in> set (user_wallets db uid)" "w_id r \<noteq> wid"
      and db': "db' = wallet_delete (reassignPrimary db uid r) wid"
      by blast
    from r have rin: "r \<in> set (as_wallets db)" and ru: "w_userId r = uid"
      by (simp_all add: user_wallets_def)
    have others: "\<And>u. u \<noteq> uid \<Longrightarrow> single_primary db u"
      using inv by (simp add: wallet_invariant_def)
    have inv1: "wallet_invariant (reassignPrimary db uid r)"
      by (rule reassignPrimary_invariant(1) [OF d rin ru others])
    let ?w' = "wallet\<lparr>w_isPrimary := False\<rparr>"
    have "?w' \<in> set (as_wallets (reassignPrimary db uid r))"
      unfolding reassignPrimary_wallets using win wu r(2) w(2)
      by (auto simp: image_iff intro!: bexI [of _ wallet])
    from wallet_delete_invariant [OF inv1 this] db' w(2) show ?thesis by simp
  qed
qed

lemma setPrimaryWallet_invariant:
  assumes inv: "wallet_invariant db"
    and run: "setPrimaryWallet db uid wid = (Inr w, db')"
  shows "wallet_invariant db'"
proof -
  have d: "distinct (map w_id (as_wallets db))" using inv by (simp add: wallet_invariant_def)
  from setPrimaryWallet_success [OF d run] obtain r where
    r: "r \<in> set (as_wallets db)" "w_userId r = uid" and db': "db' = reassignPrimary db uid r"
    by blast
  have others: "\<And>u. u \<noteq> uid \<Longrightarrow> single_primary db u"
    using inv by (simp add: wallet_invariant_def)
  show ?thesis unfolding db' by (rule reassignPrimary_invariant(1) [OF d r others])
qed

text \<open>
  Claim C2. The wallet invariant (unique wallet identifiers; every user owning a wallet
  owns exactly one primary wallet, whose address is the address stored on the user)
  holds of a store without wallets and is preserved by every successful \<^verbatim>\<open>linkWallet\<close>,
  \<^verbatim>\<open>unlinkWallet\<close> and \<^verbatim>\<open>setPrimaryWallet\<close>. A successful \<^verbatim>\<open>linkWallet\<close> adds one wallet
  of the user; the wallet is primary exactly when the user had no wallet before, in
  which case the user's stored address becomes the wallet's address, and otherwise the
  user table is unchanged.
\<close>

theorem wallet_operations_preserve_single_primary:
  "(as_wallets db = [] \<longrightarrow> wallet_invariant db)
   \<and> (wallet_invariant db \<and> user_wallets db uid \<noteq> []
      \<longrightarrow> (\<exists>p. filter w_isPrimary (user_wallets db uid) = [p]
             \<and> list_all (\<lambda>u. u_stellarAddress u = w_address p)
                  (filter (\<lambda>u. u_id u = uid) (as_users db))))
   \<and> (wallet_invariant db
       \<and> linkWallet lib now nid db uid address nonce signature label = (Inr w, db')
      \<longrightarrow> wallet_invariant db'
        \<and> as_wallets db' = as_wallets db @ [w] \<and> w_userId w = uid
        \<and> (w_isPrimary w \<longleftrightarrow> user_wallets db uid = [])
        \<and> (w_isPrimary w
           \<longrightarrow> list_all (\<lambda>u. u_stellarAddress u = w_address w)
                 (filter (\<lambda>u. u_id u = uid) (as_users db')))
        \<and> (\<not> w_isPrimary w \<longrightarrow> as_users db' = as_users db))
   \<and> (wallet_invariant db \<and> unlinkWallet db uid wid = (Inr (), db')
      \<longrightarrow> wallet_invariant db')
   \<and> (wallet_invariant db \<and> setPrimaryWallet db uid wid = (Inr w, db')
      \<longrightarrow> wallet_invariant db')"
proof (intro conjI impI)
  assume "as_wallets db = []"
  then show "wallet_invariant db"
    by (simp add: wallet_invariant_def single_primary_def user_wallets_def)
next
  assume "wallet_invariant db \<and> user_wallets db uid \<noteq> []"
  then show "\<exists>p. filter w_isPrimary (user_wallets db uid) = [p]
             \<and> list_all (\<lambda>u. u_stellarAddress u = w_address p)
                  (filter (\<lambda>u. u_id u = uid) (as_users db))"
    by (auto simp: wallet_invariant_def single_primary_def)
next
  assume a: "wallet_invariant db
       \<and> linkWallet lib now nid db uid address nonce signature label = (Inr w, db')"
  then have run: "linkWallet lib now nid db uid address nonce signature label = (Inr w, db')"
    by simp
  from a have inv: "wallet_invariant db" by simp
  show "wallet_invariant db'" by (rule linkWallet_invariant [OF inv run])
  from linkWallet_success [OF run] obtain a where
    w: "w_userId w = uid" "w_address w = a" "w_isPrimary w \<longleftrightarrow> user_wallets db uid = []"
    and ws: "as_wallets db' = as_wallets db @ [w]"
    and us: "as_users db' =
               (if user_wallets db uid = []
                then map (\<lambda>u. if u_id u = uid then u\<lparr>u_stellarAddress := a\<rparr> else u)
                       (as_users db)
                else as_users db)"
    by blast
  show "as_wallets db' = as_wallets db @ [w]" by (rule ws)
  show "w_userId w = uid" by (rule w(1))
  show "w_isPrimary w \<longleftrightarrow> user_wallets db uid = []" by (rule w(3))
  show "list_all (\<lambda>u. u_stellarAddress u = w_address w)
          (filter (\<lambda>u. u_id u = uid) (as_users db'))" if "w_isPrimary w"
  proof -
    let ?k = "\<lambda>u. if u_id u = uid then u\<lparr>u_stellarAddress := a\<rparr> else u"
    have ku: "(\<lambda>x. u_id x = uid) \<circ> ?k = (\<lambda>x. u_id x = uid)"
      by (rule ext) simp
    from that w(3) have empty: "user_wallets db uid = []" by simp
    have "filter (\<lambda>x. u_id x = uid) (as_users db')
            = map ?k (filter (\<lambda>x. u_id x = uid) (as_users db))"
      unfolding us using empty by (simp add: filter_map ku)
    then show ?thesis
      by (simp add: list_all_iff w(2))
  qed
  show "as_users db' = as_users db" if "\<not> w_isPrimary w"
  proof -
    from that w(3) have "user_wallets db uid \<noteq> []" by simp
    then show ?thesis unfolding us by simp
  qed
next
  assume a: "wallet_invariant db \<and> unlinkWallet db uid wid = (Inr (), db')"
  show "wallet_invariant db'"
    by (rule unlinkWallet_invariant [OF conjunct1 [OF a] conjunct2 [OF a]])
next
  assume a: "wallet_invariant db \<and> setPrimaryWallet db uid wid = (Inr w, db')"
  show "wallet_invariant db'"
    by (rule setPrimaryWallet_invariant [OF conjunct1 [OF a] conjunct2 [OF a]])
qed

theorem wallet_operations_preserve_single_primary_witness:
  "wallet_invariant
     (example_store ''GAAA'' [example_wallet ''w1'' ''GAAA'' True 1000]
        [example_challenge ''GAAA'' ''n1'' (Some 1000)])
   \<and> wallet_invariant
     (example_store ''GAAA''
        [example_wallet ''w1'' ''GAAA'' True 1000, example_wallet ''w2'' ''GBBB'' False 2000]
        [example_challenge ''GBBB'' ''n2'' (Some 2000)])
   \<and> wallet_invariant
     (example_store ''GBBB''
        [example_wallet ''w1'' ''GAAA'' False 1000, example_wallet ''w2'' ''GBBB'' True 2000] [])
   \<and> wallet_invariant (example_store ''GAAA'' [example_wallet ''w1'' ''GAAA'' True 1000] [])"
proof -
  let ?w1 = "example_wallet ''w1'' ''GAAA'' True 1000"
  let ?w2 = "example_wallet ''w2'' ''GBBB'' False 2000"
  let ?s0 = "example_store ''GAAA'' [] [example_challenge ''GAAA'' ''n1'' None]"
  let ?s1 = "example_store ''GAAA'' [?w1] [example_challenge ''GAAA'' ''n1'' (Some 1000)]"
  let ?s1' = "example_store ''GAAA'' [?w1] [example_challenge ''GBBB'' ''n2'' None]"
  let ?s2 = "example_store ''GAAA'' [?w1, ?w2] [example_challenge ''GBBB'' ''n2'' (Some 2000)]"
  let ?s2' = "example_store ''GAAA'' [?w1, ?w2] []"
  let ?s3 = "example_store ''GBBB''
               [example_wallet ''w1'' ''GAAA'' False 1000,
                example_wallet ''w2'' ''GBBB'' True 2000] []"
  let ?s4 = "example_store ''GAAA'' [?w1] []"
  note T = wallet_operations_preserve_single_primary
  have r1: "linkWallet example_sdk 1000 ''w1'' ?s0 ''alice'' ''gaaa'' ''n1''
              example_signature None = (Inr ?w1, ?s1)"
    by code_simp
  have r2: "linkWallet example_sdk 2000 ''w2'' ?s1' ''alice'' ''gbbb'' '' n2''
              example_signature None = (Inr ?w2, ?s2)"
    by code_simp
  have r3: "setPrimaryWallet ?s2' ''alice'' ''w2''
              = (Inr (example_wallet ''w2'' ''GBBB'' True 2000), ?s3)"
    by code_simp
  have r4: "unlinkWallet ?s3 ''alice'' ''w2'' = (Inr (), ?s4)"
    by code_simp
  note base = T [THEN conjunct1, rule_format]
  note link = T [THEN conjunct2, THEN conjunct2, THEN conjunct1, rule_format]
  note unlink = T [THEN conjunct2, THEN conjunct2, THEN conjunct2, THEN conjunct1, rule_format]
  note setp = T [THEN conjunct2, THEN conjunct2, THEN conjunct2, THEN conjunct2, rule_format]
  have same: "wallet_invariant (example_store a ws cs')"
    if "wallet_invariant (example_store a ws cs)" for a ws cs cs'
    using that
    by (simp add: wallet_invariant_def single_primary_def user_wallets_def example_store_def)
  have i0: "wallet_invariant ?s0"
    by (rule base) (simp add: example_store_def)
  have i1: "wallet_invariant ?s1"
    by (rule link [OF conjI [OF i0 r1], THEN conjunct1])
  have i1': "wallet_invariant ?s1'" by (rule same [OF i1])
  have i2: "wallet_invariant ?s2"
    by (rule link [OF conjI [OF i1' r2], THEN conjunct1])
  have i2': "wallet_invariant ?s2'" by (rule same [OF i2])
  have i3: "wallet_invariant ?s3"
    by (rule setp [OF conjI [OF i2' r3]])
  have i4: "wallet_invariant ?s4"
    by (rule unlink [OF conjI [OF i3 r4]])
  show ?thesis using i1 i2 i3 i4 by simp
qed























end
